theory Spec2Isabelle
  imports Main
begin

section \<open>Diagnostic markers and their comparison (monaco.js, markersMatch)\<close>

text \<open>
  A marker as the comparison reads it: the four position fields are JavaScript numbers
  holding line and column numbers, the message is a string. The markers the widget hands
  out carry further fields (severity, owner, ...) which the comparison never reads; the
  record is used at its extensible type \<open>'z marker_scheme\<close> so that every statement
  below holds whatever those further fields are.
\<close>

record marker =
  startLineNumber :: int
  startColumn :: int
  endLineNumber :: int
  endColumn :: int
  message :: string

text \<open>
  \<open>Array.prototype.every\<close> with a callback that receives the element and its index:
  the elements are visited from index 0 upwards and the first falsy answer ends the
  traversal with \<open>false\<close>.
\<close>

fun every_from :: "nat \<Rightarrow> ('a \<Rightarrow> nat \<Rightarrow> bool) \<Rightarrow> 'a list \<Rightarrow> bool" where
  "every_from index f [] = True"
| "every_from index f (x # xs) = (if f x index then every_from (Suc index) f xs else False)"

definition every :: "('a \<Rightarrow> nat \<Rightarrow> bool) \<Rightarrow> 'a list \<Rightarrow> bool" where
  "every f xs = every_from 0 f xs"

text \<open>
  \<open>markersMatch\<close>: the length test comes first, so \<open>bMarkers ! index\<close> is only ever
  read at an index below the length of \<open>bMarkers\<close>.
\<close>

definition markersMatch :: "'z marker_scheme list \<Rightarrow> 'z marker_scheme list \<Rightarrow> bool" where
  "markersMatch aMarkers bMarkers =
     (if length aMarkers \<noteq> length bMarkers then False
      else every (\<lambda>aMarker index.
             let bMarker = bMarkers ! index in
               startLineNumber aMarker = startLineNumber bMarker \<and>
               startColumn aMarker = startColumn bMarker \<and>
               endLineNumber aMarker = endLineNumber bMarker \<and>
               endColumn aMarker = endColumn bMarker \<and>
               message aMarker = message bMarker) aMarkers)"


section \<open>The debounce hook (useDebounced.js)\<close>

text \<open>
  Modelled from the spec: \<open>debounce\<close> is imported from the npm package
  \<open>lodash.debounce\<close>, which is not part of the repository. The spec describes it as a
  standard trailing-edge debounce: a call schedules the wrapped function to run after
  \<open>wait\<close> milliseconds of quiescence, each call resets the wait window and supersedes
  the previously scheduled call, and only the most recent arguments are delivered. A
  debounced function is therefore a wait time and at most one pending timer, holding
  its deadline and the arguments of the last call.

  A debounced function made by \<open>useDebounced\<close> also carries the generation id that its
  wrapped arrow function closed over (\<open>const id = (count.current += 1)\<close>).
\<close>

record 'a debounced =
  gen_id :: nat
  wait :: nat
  timer :: "(nat \<times> 'a) option"

text \<open>
  Modelled from the spec: creating a debounced function with no call scheduled, calling
  it at time \<open>t\<close> (the wait window restarts and the new arguments replace the old),
  and the arguments it delivers at time \<open>t\<close>, if its deadline has been reached.
\<close>

definition debounce :: "nat \<Rightarrow> nat \<Rightarrow> 'a debounced" where
  "debounce i changeDelay = \<lparr>gen_id = i, wait = changeDelay, timer = None\<rparr>"

definition debounced_call :: "nat \<Rightarrow> 'a \<Rightarrow> 'a debounced \<Rightarrow> 'a debounced" where
  "debounced_call t args f = f\<lparr>timer := Some (t + wait f, args)\<rparr>"

definition due :: "nat \<Rightarrow> 'a debounced \<Rightarrow> 'a option" where
  "due t f = (case timer f of
                None \<Rightarrow> None
              | Some (deadline, args) \<Rightarrow> if deadline \<le> t then Some args else None)"

definition clear_due :: "nat \<Rightarrow> 'a debounced \<Rightarrow> 'a debounced" where
  "clear_due t f = (case due t f of None \<Rightarrow> f | Some args \<Rightarrow> f\<lparr>timer := None\<rparr>)"

text \<open>
  One call site of the hook. \<open>count\<close> is the ref \<open>useRef(0)\<close> shared by every version
  created at the site (a JavaScript number, exact on the integers a counter of renders
  reaches; modelled as a natural number). \<open>memo\<close> is what \<open>useMemo\<close> remembers: the
  dependency list \<open>[changeDelay, ...deps]\<close> of the render that created the current
  version. \<open>fns\<close> holds every debounced function created so far, oldest first; the last
  one is the function the hook currently returns, the earlier ones may still have a
  timer running. \<open>invoked\<close> records each invocation of the wrapped \<open>fn\<close> as the
  generation id of the version that made it and the arguments passed.
\<close>

record ('a, 'd) site =
  count :: nat
  memo :: "(nat \<times> 'd) option"
  fns :: "'a debounced list"
  now :: nat
  invoked :: "(nat \<times> 'a) list"

definition site_init :: "('a, 'd) site" where
  "site_init = \<lparr>count = 0, memo = None, fns = [], now = 0, invoked = []\<rparr>"

text \<open>
  The hook body. When the dependencies are those of the previous render \<open>useMemo\<close>
  returns the remembered function; otherwise its callback runs, increments the counter
  and creates a new debounced function around the new id.
\<close>

definition useDebounced :: "nat \<Rightarrow> 'd \<Rightarrow> ('a, 'd) site \<Rightarrow> ('a, 'd) site" where
  "useDebounced changeDelay deps s =
     (if memo s = Some (changeDelay, deps) then s
      else let i = count s + 1 in
        s\<lparr>count := i, fns := fns s @ [debounce i changeDelay],
          memo := Some (changeDelay, deps)\<rparr>)"

text \<open>
  The arrow function handed to \<open>debounce\<close>: it returns without effect when the id it
  closed over differs from the counter, and calls \<open>fn\<close> with the arguments otherwise.
\<close>

definition wrapped :: "nat \<Rightarrow> nat \<Rightarrow> 'a \<Rightarrow> (nat \<times> 'a) list \<Rightarrow> (nat \<times> 'a) list" where
  "wrapped i cnt args lg = (if i \<noteq> cnt then lg else lg @ [(i, args)])"

text \<open>
  The passage of time: every timer whose deadline has been reached fires, which runs
  the wrapped arrow function of its debounced function with the arguments of the last
  call, and is cleared.
\<close>

fun fire :: "nat \<Rightarrow> nat \<Rightarrow> 'a debounced list \<Rightarrow> (nat \<times> 'a) list \<Rightarrow> (nat \<times> 'a) list" where
  "fire t cnt [] lg = lg"
| "fire t cnt (f # fs) lg =
     (case due t f of
        None \<Rightarrow> fire t cnt fs lg
      | Some args \<Rightarrow> fire t cnt fs (wrapped (gen_id f) cnt args lg))"

datatype ('a, 'd) site_event =
    HookRender nat 'd
  | Call nat 'a
  | Tick nat

fun site_step :: "('a, 'd) site_event \<Rightarrow> ('a, 'd) site \<Rightarrow> ('a, 'd) site" where
  "site_step (HookRender changeDelay deps) s = useDebounced changeDelay deps s"
| "site_step (Call k args) s =
     (if k < length (fns s)
      then s\<lparr>fns := (fns s)[k := debounced_call (now s) args (fns s ! k)]\<rparr>
      else s)"
| "site_step (Tick n) s =
     (let t = now s + n in
        s\<lparr>now := t,
          invoked := fire t (count s) (fns s) (invoked s),
          fns := map (clear_due t) (fns s)\<rparr>)"

fun site_run :: "('a, 'd) site_event list \<Rightarrow> ('a, 'd) site \<Rightarrow> ('a, 'd) site" where
  "site_run [] s = s"
| "site_run (e # es) s = site_run es (site_step e s)"

definition calls_of :: "nat \<Rightarrow> (nat \<times> 'a) list \<Rightarrow> 'a list" where
  "calls_of i lg = map snd (filter (\<lambda>e. fst e = i) lg)"

text \<open>
  A burst of calls to the function at index \<open>k\<close>: each call but the last is followed by
  a pause, given with its arguments; the last call is followed by the final pause.
\<close>

fun burst :: "nat \<Rightarrow> ('a \<times> nat) list \<Rightarrow> ('a, 'd) site_event list" where
  "burst k [] = []"
| "burst k ((args, gap) # cs) = Call k args # Tick gap # burst k cs"


section \<open>The editor component (monaco.js)\<close>

subsection \<open>Props, the widget, the process and the component instance\<close>

text \<open>
  A function passed as a prop is represented by a number standing for its identity:
  React compares dependencies with \<open>Object.is\<close>, so two renders pass "the same"
  callback exactly when they pass the same function object. The \<open>style\<close> prop is
  handed to the \<open>Box\<close> unread and is left out.
\<close>

type_synonym callback = nat

record props =
  value_prop :: string
  language :: string
  onChange :: callback
  onLoad :: callback
  onSyntaxError :: callback
  readOnly :: bool
  renderSignal :: nat

text \<open>
  Modelled from the spec: the editing widget is the third-party Monaco editor, which is
  not part of the repository. Of a widget the component uses its text buffer
  (\<open>getValue\<close>, \<open>setValue\<close>), the language mode of its model, its read-only option
  and \<open>layout\<close>. The spec describes \<open>setValue\<close> as a hard overwrite that does not
  preserve the cursor position, and the comment on the owner's change handler says that
  setting the value explicitly triggers a change event.
\<close>

record widget =
  content :: string
  cursor :: "nat \<times> nat"
  modeId :: string
  readOnlyOption :: bool
  layouts :: nat

text \<open>
  Modelled from the spec: \<open>monaco.editor.create\<close> with a \<open>value\<close> option yields a
  widget whose buffer holds that value.
\<close>

definition create :: "string \<Rightarrow> widget" where
  "create v = \<lparr>content = v, cursor = (1, 1), modeId = ''plaintext'',
               readOnlyOption = False, layouts = 0\<rparr>"

datatype call =
    OnLoad callback
  | OnChange callback string
  | OnSyntaxError callback "marker list"

text \<open>
  What is shared by the whole process: the global \<open>window.monaco\<close> (present or not),
  the global \<open>window.require\<close>, the resources requested from the loader functions,
  the widgets created so far (a widget is referred to by its index here), and the
  calls made to the owner's callbacks, in order.
\<close>

record world =
  window_monaco :: bool
  window_require :: bool
  requests :: "string list"
  widgets :: "widget list"
  calls :: "call list"

text \<open>
  One mounted component: the three state variables \<open>monaco\<close>, \<open>editor\<close> and
  \<open>errors\<close> with the values the current render saw, the two refs, and the props of
  that render. A state setter called from an effect or from an event handler does not
  change what the closures of the current render see; its argument waits in
  \<open>set_monaco\<close>, \<open>set_editor\<close> or \<open>set_errors\<close> until the next render.
  \<open>loading\<close> holds, for every call of \<open>loadMonacoAsync\<close> this instance has made and
  which has not returned yet, the number of \<open>await\<close>s it has passed. \<open>changeSub\<close> and
  \<open>decorationsSub\<close> are the listeners registered on the widget, as the values their
  closures captured.
\<close>

record inst =
  prev :: props
  monaco :: bool
  editor :: "nat option"
  errors :: "marker list"
  rootRef :: bool
  valueRef :: string
  set_monaco :: bool
  set_editor :: "nat option"
  set_errors :: "marker list option"
  loading :: "nat list"
  changeSub :: "(nat \<times> callback) option"
  decorationsSub :: "(nat \<times> marker list) option"

type_synonym state = "world \<times> inst"

definition upd_widget :: "nat \<Rightarrow> (widget \<Rightarrow> widget) \<Rightarrow> world \<Rightarrow> world" where
  "upd_widget h f g = g\<lparr>widgets := (widgets g)[h := f (widgets g ! h)]\<rparr>"

subsection \<open>loadMonacoAsync\<close>

definition load_urls :: "string list" where
  "load_urls =
    [''https://unpkg.com/monaco-editor@0.19.3/min/vs/editor/editor.main.css'',
     ''https://unpkg.com/monaco-editor@0.19.3/min/vs/loader.js'',
     ''https://unpkg.com/monaco-editor@0.19.3/min/vs/editor/editor.main.nls.js'',
     ''https://unpkg.com/monaco-editor@0.19.3/min/vs/editor/editor.main.js'']"

text \<open>
  A call of \<open>loadMonacoAsync\<close> sets \<open>window.require\<close>, requests the style sheet and
  suspends at the first \<open>await\<close>.
\<close>

definition loadMonacoAsync :: "state \<Rightarrow> state" where
  "loadMonacoAsync = (\<lambda>(g, i).
     (g\<lparr>window_require := True, requests := requests g @ [load_urls ! 0]\<rparr>,
      i\<lparr>loading := loading i @ [0]\<rparr>))"

text \<open>
  The resource awaited by the \<open>j\<close>-th pending call has loaded. After the style sheet
  and the first two scripts the next resource is requested; after the last script,
  which installs \<open>window.monaco\<close>, the function returns that global and the
  \<open>then\<close> callback hands it to \<open>setMonaco\<close>.
\<close>

definition resolved :: "nat \<Rightarrow> state \<Rightarrow> state" where
  "resolved j = (\<lambda>(g, i).
     if j < length (loading i) then
       let stage = loading i ! j in
         if stage < 3
         then (g\<lparr>requests := requests g @ [load_urls ! (stage + 1)]\<rparr>,
               i\<lparr>loading := (loading i)[j := stage + 1]\<rparr>)
         else (g\<lparr>window_monaco := True\<rparr>,
               i\<lparr>loading := take j (loading i) @ drop (Suc j) (loading i),
                 set_monaco := True\<rparr>)
     else (g, i))"

subsection \<open>Event handlers\<close>

text \<open>
  The listener of \<open>onDidChangeModelContent\<close>, closed over the widget \<open>h\<close> and the
  \<open>onChange\<close> prop \<open>cb\<close> of the render that registered it.
\<close>

definition changeHandler :: "nat \<Rightarrow> callback \<Rightarrow> state \<Rightarrow> state" where
  "changeHandler h cb = (\<lambda>(g, i).
     let newValue = content (widgets g ! h) in
       (g\<lparr>calls := calls g @ [OnChange cb newValue]\<rparr>, i\<lparr>valueRef := newValue\<rparr>))"

text \<open>The widget \<open>h\<close> emits a content change: the listener runs if one is registered.\<close>

definition emit_change :: "nat \<Rightarrow> state \<Rightarrow> state" where
  "emit_change h = (\<lambda>(g, i).
     case changeSub i of
       None \<Rightarrow> (g, i)
     | Some (h', cb) \<Rightarrow> if h' = h then changeHandler h' cb (g, i) else (g, i))"

text \<open>
  Modelled from the spec: \<open>editor.setValue\<close> overwrites the buffer, puts the cursor
  back at the start and emits a content change.
\<close>

definition setValue :: "nat \<Rightarrow> string \<Rightarrow> state \<Rightarrow> state" where
  "setValue h v = (\<lambda>(g, i).
     emit_change h (upd_widget h (\<lambda>w. w\<lparr>content := v, cursor := (1, 1)\<rparr>) g, i))"

text \<open>
  The listener of \<open>onDidChangeModelDecorations\<close>, closed over the widget and the
  \<open>errors\<close> of the render that registered it. \<open>newErrors\<close> is what
  \<open>monaco.editor.getModelMarkers\<close> returns when the listener runs.
\<close>

definition decorationsHandler :: "nat \<Rightarrow> marker list \<Rightarrow> marker list \<Rightarrow> state \<Rightarrow> state" where
  "decorationsHandler h errs newErrors = (\<lambda>(g, i).
     if modeId (widgets g ! h) \<noteq> ''json'' then (g, i)
     else if markersMatch errs newErrors then (g, i)
     else (g, i\<lparr>set_errors := Some newErrors\<rparr>))"

subsection \<open>The effects, in the order of the source\<close>

definition effect_load :: "props \<Rightarrow> state \<Rightarrow> state" where
  "effect_load p = (\<lambda>(g, i).
     if monaco i then (g\<lparr>calls := calls g @ [OnLoad (onLoad p)]\<rparr>, i)
     else loadMonacoAsync (g, i))"

definition effect_create :: "state \<Rightarrow> state" where
  "effect_create = (\<lambda>(g, i).
     if \<not> monaco i \<or> \<not> rootRef i then (g, i)
     else let newEditor = length (widgets g) in
       (g\<lparr>widgets := widgets g @ [create (valueRef i)]\<rparr>, i\<lparr>set_editor := Some newEditor\<rparr>))"

definition effect_changeSub :: "props \<Rightarrow> state \<Rightarrow> state" where
  "effect_changeSub p = (\<lambda>(g, i).
     case editor i of
       None \<Rightarrow> (g, i)
     | Some h \<Rightarrow> if \<not> monaco i then (g, i) else (g, i\<lparr>changeSub := Some (h, onChange p)\<rparr>))"

definition cleanup_changeSub :: "state \<Rightarrow> state" where
  "cleanup_changeSub = (\<lambda>(g, i). (g, i\<lparr>changeSub := None\<rparr>))"

definition effect_decorationsSub :: "state \<Rightarrow> state" where
  "effect_decorationsSub = (\<lambda>(g, i).
     case editor i of
       None \<Rightarrow> (g, i)
     | Some h \<Rightarrow> if \<not> monaco i then (g, i) else (g, i\<lparr>decorationsSub := Some (h, errors i)\<rparr>))"

definition cleanup_decorationsSub :: "state \<Rightarrow> state" where
  "cleanup_decorationsSub = (\<lambda>(g, i). (g, i\<lparr>decorationsSub := None\<rparr>))"

definition effect_syntax :: "props \<Rightarrow> state \<Rightarrow> state" where
  "effect_syntax p = (\<lambda>(g, i).
     (g\<lparr>calls := calls g @ [OnSyntaxError (onSyntaxError p) (errors i)]\<rparr>, i))"

definition effect_layout :: "state \<Rightarrow> state" where
  "effect_layout = (\<lambda>(g, i).
     case editor i of
       None \<Rightarrow> (g, i)
     | Some h \<Rightarrow> (upd_widget h (\<lambda>w. w\<lparr>layouts := layouts w + 2\<rparr>) g, i))"

definition effect_value :: "props \<Rightarrow> state \<Rightarrow> state" where
  "effect_value p = (\<lambda>(g, i).
     case editor i of
       None \<Rightarrow> (g, i)
     | Some h \<Rightarrow> if valueRef i = value_prop p then (g, i)
                else setValue h (value_prop p) (g, i))"

definition effect_language :: "props \<Rightarrow> state \<Rightarrow> state" where
  "effect_language p = (\<lambda>(g, i).
     case editor i of
       None \<Rightarrow> (g, i)
     | Some h \<Rightarrow> if \<not> monaco i then (g, i)
                else (upd_widget h (\<lambda>w. w\<lparr>modeId := language p\<rparr>) g, i))"

definition effect_readOnly :: "props \<Rightarrow> state \<Rightarrow> state" where
  "effect_readOnly p = (\<lambda>(g, i).
     case editor i of
       None \<Rightarrow> (g, i)
     | Some h \<Rightarrow> (upd_widget h (\<lambda>w. w\<lparr>readOnlyOption := readOnly p\<rparr>) g, i))"

subsection \<open>Renders\<close>

definition run_if :: "bool \<Rightarrow> (state \<Rightarrow> state) \<Rightarrow> state \<Rightarrow> state" where
  "run_if b f s = (if b then f s else s)"

text \<open>
  Whether a prop in a dependency list differs from the previous render; on the first
  render there is no previous render and every effect runs.
\<close>

fun changed :: "props option \<Rightarrow> (props \<Rightarrow> 'a) \<Rightarrow> props \<Rightarrow> bool" where
  "changed None f p = True"
| "changed (Some q) f p = (f q \<noteq> f p)"

text \<open>
  The commit of a render with props \<open>p\<close>: \<open>q\<close> is the props of the previous render,
  if any, and \<open>m\<close>, \<open>e\<close>, \<open>r\<close> tell whether the state variables \<open>monaco\<close>, \<open>editor\<close> and
  \<open>errors\<close> differ from the previous render. React runs the layout effect first, then
  the cleanups of the passive effects whose dependencies changed, then the bodies of
  those effects in the order of the source.
\<close>

definition commit :: "props option \<Rightarrow> bool \<Rightarrow> bool \<Rightarrow> bool \<Rightarrow> props \<Rightarrow> state \<Rightarrow> state" where
  "commit q m e r p s =
     (let s = run_if (e \<or> changed q value_prop p) (effect_value p) s;
          s = run_if (e \<or> m \<or> changed q onChange p) cleanup_changeSub s;
          s = run_if (e \<or> m \<or> r) cleanup_decorationsSub s;
          s = run_if (m \<or> changed q onLoad p) (effect_load p) s;
          s = run_if m effect_create s;
          s = run_if (e \<or> m \<or> changed q onChange p) (effect_changeSub p) s;
          s = run_if (e \<or> m \<or> r) effect_decorationsSub s;
          s = run_if (r \<or> changed q onSyntaxError p) (effect_syntax p) s;
          s = run_if (e \<or> changed q renderSignal p) effect_layout s;
          s = run_if (e \<or> m \<or> changed q language p) (effect_language p) s;
          s = run_if (e \<or> changed q readOnly p) (effect_readOnly p) s
      in s)"

text \<open>
  The first render initialises the hooks: \<open>useState(window.monaco)\<close>,
  \<open>useState(null)\<close>, \<open>useState([])\<close>, \<open>useRef(null)\<close> and \<open>useRef(value)\<close>. The
  \<open>Box\<close> is rendered unconditionally, so \<open>rootRef.current\<close> is attached when the
  effects run.
\<close>

definition initial :: "props \<Rightarrow> world \<Rightarrow> inst" where
  "initial p g = \<lparr>prev = p, monaco = window_monaco g, editor = None, errors = [],
                  rootRef = False, valueRef = value_prop p,
                  set_monaco = False, set_editor = None, set_errors = None,
                  loading = [], changeSub = None, decorationsSub = None\<rparr>"

definition mount :: "props \<Rightarrow> world \<Rightarrow> state" where
  "mount p g = commit None True True True p (g, (initial p g)\<lparr>rootRef := True\<rparr>)"

text \<open>
  A later render: the waiting state updates take effect, and the effects whose
  dependencies changed run. A render is one step of the model: its layout effect and
  its passive effects have run before the next event is handled.
\<close>

definition render :: "props \<Rightarrow> state \<Rightarrow> state" where
  "render p = (\<lambda>(g, i).
     commit (Some (prev i))
       (\<not> monaco i \<and> set_monaco i) (set_editor i \<noteq> None) (set_errors i \<noteq> None) p
       (g, i\<lparr>prev := p,
            monaco := monaco i \<or> set_monaco i,
            editor := (case set_editor i of None \<Rightarrow> editor i | Some h \<Rightarrow> Some h),
            errors := (case set_errors i of None \<Rightarrow> errors i | Some errs \<Rightarrow> errs),
            set_monaco := False, set_editor := None, set_errors := None\<rparr>))"

text \<open>
  What can happen to a mounted instance: a render, the completion of a resource one
  of its loads awaits, an edit by the user in its widget (leaving the given content
  and cursor), and a change of the widget's decorations (with the markers the widget
  then reports). Unmounting is not part of the model.
\<close>

datatype event =
    Render props
  | Resolved nat
  | Edit string "nat \<times> nat"
  | Decorations "marker list"

fun step :: "event \<Rightarrow> state \<Rightarrow> state" where
  "step (Render p) s = render p s"
| "step (Resolved j) s = resolved j s"
| "step (Edit v c) (g, i) =
     (case (case editor i of None \<Rightarrow> set_editor i | Some h \<Rightarrow> Some h) of
        None \<Rightarrow> (g, i)
      | Some h \<Rightarrow> emit_change h (upd_widget h (\<lambda>w. w\<lparr>content := v, cursor := c\<rparr>) g, i))"
| "step (Decorations newErrors) (g, i) =
     (case decorationsSub i of
        None \<Rightarrow> (g, i)
      | Some (h, errs) \<Rightarrow> decorationsHandler h errs newErrors (g, i))"

fun run :: "event list \<Rightarrow> state \<Rightarrow> state" where
  "run [] s = s"
| "run (e # es) s = run es (step e s)"


section \<open>The owner's change handler (index.js, EditorGuard)\<close>

text \<open>
  The function \<open>EditorGuard\<close> passes to \<open>useDebounced\<close>. The selected record and
  field and the table come from the Airtable SDK: \<open>getCellValueAsString\<close> is taken as
  a parameter, and \<open>table.updateRecordAsync(selectedRecord, {[selectedField.id]: value})\<close>
  is recorded as a request of the record, the field and the value. The editor, the
  only caller of the handler, is rendered only when a record and a field are selected.
\<close>

definition EditorGuard_onChange ::
  "('r \<Rightarrow> 'f \<Rightarrow> string) \<Rightarrow> 'r \<Rightarrow> 'f \<Rightarrow> string \<Rightarrow> ('r \<times> 'f \<times> string) list
     \<Rightarrow> ('r \<times> 'f \<times> string) list" where
  "EditorGuard_onChange getCellValueAsString selectedRecord selectedField v updateRecordAsync =
     (if v = getCellValueAsString selectedRecord selectedField then updateRecordAsync
      else updateRecordAsync @ [(selectedRecord, selectedField, v)])"

section \<open>Invariants of the debounce hook\<close>

text \<open>
  At a call site of the hook the generation ids of the functions created so far are
  pairwise different and none exceeds the counter.
\<close>

definition site_inv :: "('a, 'd) site \<Rightarrow> bool" where
  "site_inv s \<longleftrightarrow> distinct (map gen_id (fns s)) \<and> (\<forall>f \<in> set (fns s). gen_id f \<le> count s)"

text \<open>
  The function at index \<open>k\<close> is the current version (its id is the counter) and waits
  \<open>w\<close> milliseconds.
\<close>

definition current :: "nat \<Rightarrow> nat \<Rightarrow> ('a, 'd) site \<Rightarrow> bool" where
  "current k w s \<longleftrightarrow>
     site_inv s \<and> k < length (fns s) \<and> gen_id (fns s ! k) = count s \<and> wait (fns s ! k) = w"

section \<open>Observations on runs of the editor component\<close>

text \<open>The callbacks passed to \<open>onLoad\<close> that were called, and the calls of \<open>onSyntaxError\<close>.\<close>

fun onLoad_of :: "call \<Rightarrow> callback list" where
  "onLoad_of (OnLoad cb) = [cb]"
| "onLoad_of (OnChange cb v) = []"
| "onLoad_of (OnSyntaxError cb errs) = []"

definition onLoad_calls :: "call list \<Rightarrow> callback list" where
  "onLoad_calls cs = concat (map onLoad_of cs)"

fun syntax_of :: "call \<Rightarrow> (callback \<times> marker list) list" where
  "syntax_of (OnLoad cb) = []"
| "syntax_of (OnChange cb v) = []"
| "syntax_of (OnSyntaxError cb errs) = [(cb, errs)]"

definition syntax_calls :: "call list \<Rightarrow> (callback \<times> marker list) list" where
  "syntax_calls cs = concat (map syntax_of cs)"




text \<open>An event that does not hand the component a different \<open>onLoad\<close> function.\<close>

fun keeps_onLoad :: "callback \<Rightarrow> event \<Rightarrow> bool" where
  "keeps_onLoad cb (Render p) = (onLoad p = cb)"
| "keeps_onLoad cb (Resolved j) = True"
| "keeps_onLoad cb (Edit v c) = True"
| "keeps_onLoad cb (Decorations ms) = True"

text \<open>
  An event during which the diagnostics stay what they are: a change of decorations
  whose markers match \<open>errs\<close>, a render that passes the same \<open>onSyntaxError\<close>
  function, or any edit or load completion.
\<close>

fun quiet :: "marker list \<Rightarrow> callback \<Rightarrow> event \<Rightarrow> bool" where
  "quiet errs cb (Decorations newErrors) = markersMatch errs newErrors"
| "quiet errs cb (Render p) = (onSyntaxError p = cb)"
| "quiet errs cb (Resolved j) = True"
| "quiet errs cb (Edit v c) = True"

text \<open>
  The calls of \<open>onSyntaxError\<close> an event makes in a state: only a render makes any, and
  it does when a \<open>setErrors\<close> was waiting (the new list is reported) or when it is
  handed a different \<open>onSyntaxError\<close> function (the stored list is reported again).
\<close>

fun reports :: "event \<Rightarrow> state \<Rightarrow> (callback \<times> marker list) list" where
  "reports (Render p) (g, i) =
     (case set_errors i of
        Some newErrors \<Rightarrow> [(onSyntaxError p, newErrors)]
      | None \<Rightarrow> if onSyntaxError (prev i) \<noteq> onSyntaxError p
                then [(onSyntaxError p, errors i)] else [])"
| "reports (Resolved j) s = []"
| "reports (Edit v c) s = []"
| "reports (Decorations newErrors) s = []"

text \<open>The widget of the instance has been created.\<close>

definition made :: "state \<Rightarrow> bool" where
  "made s \<longleftrightarrow> editor (snd s) \<noteq> None \<or> set_editor (snd s) \<noteq> None"

section \<open>Invariants used in the proofs\<close>

text \<open>
  \<open>onLoad\<close> has been called exactly when the instance holds the library, and then once.
\<close>

definition signalled :: "callback \<Rightarrow> callback list \<Rightarrow> state \<Rightarrow> bool" where
  "signalled cb base s \<longleftrightarrow>
     onLoad (prev (snd s)) = cb \<and>
     onLoad_calls (calls (fst s)) = base @ (if monaco (snd s) then [cb] else [])"

text \<open>
  As long as the state variable \<open>editor\<close> is empty no change listener is registered and
  \<open>valueRef\<close> holds the value it was initialised with; a widget is only created once
  the instance holds the library.
\<close>

definition unedited :: "string \<Rightarrow> state \<Rightarrow> bool" where
  "unedited v0 s \<longleftrightarrow>
     rootRef (snd s) \<and>
     (editor (snd s) = None \<longrightarrow> changeSub (snd s) = None \<and> valueRef (snd s) = v0) \<and>
     (editor (snd s) \<noteq> None \<or> set_editor (snd s) \<noteq> None \<longrightarrow> monaco (snd s))"

text \<open>The decorations listener, if registered, closed over the current \<open>errors\<close>.\<close>

definition listening :: "state \<Rightarrow> bool" where
  "listening s \<longleftrightarrow>
     (case decorationsSub (snd s) of None \<Rightarrow> True | Some (h, errs) \<Rightarrow> errs = errors (snd s))"

definition reported :: "marker list \<Rightarrow> callback \<Rightarrow> (callback \<times> marker list) list \<Rightarrow> state \<Rightarrow> bool" where
  "reported errs cb base s \<longleftrightarrow>
     listening s \<and> set_errors (snd s) = None \<and> errors (snd s) = errs \<and>
     onSyntaxError (prev (snd s)) = cb \<and> syntax_calls (calls (fst s)) = base"

text \<open>
  The stored \<open>errors\<close> are the list of the last call of \<open>onSyntaxError\<close>, and a
  list waiting in \<open>setErrors\<close> differs from them under \<open>markersMatch\<close>.
\<close>

definition last_reported :: "state \<Rightarrow> bool" where
  "last_reported s \<longleftrightarrow>
     syntax_calls (calls (fst s)) \<noteq> [] \<and>
     snd (last (syntax_calls (calls (fst s)))) = errors (snd s) \<and>
     (case set_errors (snd s) of
        None \<Rightarrow> True
      | Some newErrors \<Rightarrow> \<not> markersMatch (errors (snd s)) newErrors)"

text \<open>The instance holds the library exactly when its widget has been created.\<close>

definition holds_widget :: "state \<Rightarrow> bool" where
  "holds_widget s \<longleftrightarrow> rootRef (snd s) \<and> (monaco (snd s) \<longleftrightarrow> made s)"


section \<open>Sample data\<close>

text \<open>
  A page on which the library has not been loaded and one on which it has; props for
  a cell holding \<open>A\<close> and for the same cell after its value changed to \<open>B\<close>; a
  syntax error. \<open>ready_state\<close> is an editor mounted on the loaded page and rendered once
  more, so that its widget exists and its listeners are registered; \<open>reported_state\<close>
  is that editor after the widget reported the syntax error; \<open>loading_state\<close> is an
  editor mounted on the fresh page whose value prop changed while the library loaded,
  at the moment the load has completed.
\<close>

definition fresh_page :: world where
  "fresh_page = \<lparr>window_monaco = False, window_require = False, requests = [], widgets = [],
                  calls = []\<rparr>"

definition loaded_page :: world where
  "loaded_page = fresh_page\<lparr>window_monaco := True\<rparr>"

definition sample_props :: props where
  "sample_props = \<lparr>value_prop = ''A'', language = ''json'', onChange = 1, onLoad = 2,
                    onSyntaxError = 3, readOnly = False, renderSignal = 0\<rparr>"

definition changed_props :: props where
  "changed_props = sample_props\<lparr>value_prop := ''B''\<rparr>"

definition sample_marker :: marker where
  "sample_marker = \<lparr>startLineNumber = 1, startColumn = 2, endLineNumber = 1, endColumn = 3,
                     message = ''Expected comma''\<rparr>"

definition ready_state :: state where
  "ready_state = run [Render sample_props] (mount sample_props loaded_page)"

definition reported_state :: state where
  "reported_state = run [Decorations [sample_marker], Render sample_props] ready_state"

definition loading_state :: state where
  "loading_state =
     run [Render changed_props, Resolved 0, Resolved 0, Resolved 0, Resolved 0]
       (mount sample_props fresh_page)"

section \<open>Properties of markersMatch\<close>

lemma every_from_iff:
  "every_from k f xs \<longleftrightarrow> (\<forall>i < length xs. f (xs ! i) (k + i))"
proof (induction xs arbitrary: k)
  case Nil
  show ?case by simp
next
  case (Cons x xs)
  have "(\<forall>i < Suc (length xs). f ((x # xs) ! i) (k + i))
        \<longleftrightarrow> f x k \<and> (\<forall>i < length xs. f (xs ! i) (Suc k + i))"
    by (simp add: All_less_Suc2)
  with Cons.IH [of "Suc k"] show ?case by simp
qed

text \<open>
  C9. \<open>markersMatch a b\<close> is true exactly when the two lists have the same length and at
  every index the two markers agree on start line, start column, end line, end column
  and message. The comparison is positional: it does not look at the identity of the
  lists, and a single differing field at one index, or the same markers in another
  order, makes it false.
\<close>

theorem markersMatch_iff:
  "markersMatch a b \<longleftrightarrow>
     length a = length b \<and>
     (\<forall>i < length a.
        startLineNumber (a ! i) = startLineNumber (b ! i) \<and>
        startColumn (a ! i) = startColumn (b ! i) \<and>
        endLineNumber (a ! i) = endLineNumber (b ! i) \<and>
        endColumn (a ! i) = endColumn (b ! i) \<and>
        message (a ! i) = message (b ! i))"
  by (simp add: markersMatch_def every_def every_from_iff Let_def)

theorem markersMatch_iff_witness:
  "markersMatch
     [\<lparr>startLineNumber = 1, startColumn = 2, endLineNumber = 1, endColumn = 5, message = ''x''\<rparr>,
      \<lparr>startLineNumber = 3, startColumn = 1, endLineNumber = 3, endColumn = 2, message = ''y''\<rparr>]
     [\<lparr>startLineNumber = 1, startColumn = 2, endLineNumber = 1, endColumn = 5, message = ''x''\<rparr>,
      \<lparr>startLineNumber = 3, startColumn = 1, endLineNumber = 3, endColumn = 2, message = ''y''\<rparr>]
   \<and> \<not> markersMatch
     [\<lparr>startLineNumber = 1, startColumn = 2, endLineNumber = 1, endColumn = 5, message = ''x''\<rparr>,
      \<lparr>startLineNumber = 3, startColumn = 1, endLineNumber = 3, endColumn = 2, message = ''y''\<rparr>]
     [\<lparr>startLineNumber = 3, startColumn = 1, endLineNumber = 3, endColumn = 2, message = ''y''\<rparr>,
      \<lparr>startLineNumber = 1, startColumn = 2, endLineNumber = 1, endColumn = 5, message = ''x''\<rparr>]"
  using markersMatch_iff
    [of "[\<lparr>startLineNumber = 1, startColumn = 2, endLineNumber = 1, endColumn = 5, message = ''x''\<rparr>,
          \<lparr>startLineNumber = 3, startColumn = 1, endLineNumber = 3, endColumn = 2, message = ''y''\<rparr>]"
        "[\<lparr>startLineNumber = 1, startColumn = 2, endLineNumber = 1, endColumn = 5, message = ''x''\<rparr>,
          \<lparr>startLineNumber = 3, startColumn = 1, endLineNumber = 3, endColumn = 2, message = ''y''\<rparr>]"]
    markersMatch_iff
    [of "[\<lparr>startLineNumber = 1, startColumn = 2, endLineNumber = 1, endColumn = 5, message = ''x''\<rparr>,
          \<lparr>startLineNumber = 3, startColumn = 1, endLineNumber = 3, endColumn = 2, message = ''y''\<rparr>]"
        "[\<lparr>startLineNumber = 3, startColumn = 1, endLineNumber = 3, endColumn = 2, message = ''y''\<rparr>,
          \<lparr>startLineNumber = 1, startColumn = 2, endLineNumber = 1, endColumn = 5, message = ''x''\<rparr>]"]
  by (simp add: All_less_Suc2)

section \<open>Properties of the debounce hook\<close>


lemma gen_id_debounced_call [simp]: "gen_id (debounced_call t args f) = gen_id f"
  by (simp add: debounced_call_def)

lemma wait_debounced_call [simp]: "wait (debounced_call t args f) = wait f"
  by (simp add: debounced_call_def)

lemma gen_id_clear_due [simp]: "gen_id (clear_due t f) = gen_id f"
  by (simp add: clear_due_def split: option.splits)

lemma wait_clear_due [simp]: "wait (clear_due t f) = wait f"
  by (simp add: clear_due_def split: option.splits)

lemma calls_of_wrapped:
  "i \<noteq> cnt \<Longrightarrow> calls_of i (wrapped j cnt args lg) = calls_of i lg"
  by (simp add: wrapped_def calls_of_def)

lemma calls_of_fire:
  "i \<noteq> cnt \<Longrightarrow> calls_of i (fire t cnt fs lg) = calls_of i lg"
  by (induction fs arbitrary: lg) (simp_all add: calls_of_wrapped split: option.splits)

lemma count_site_step: "count s \<le> count (site_step e s)"
  by (cases e) (simp_all add: useDebounced_def Let_def)

lemma calls_of_site_step:
  "i < count s \<Longrightarrow> calls_of i (invoked (site_step e s)) = calls_of i (invoked s)"
  by (cases e) (simp_all add: useDebounced_def Let_def calls_of_fire)

lemma calls_of_site_run:
  "i < count s \<Longrightarrow> calls_of i (invoked (site_run es s)) = calls_of i (invoked s)"
proof (induction es arbitrary: s)
  case Nil
  show ?case by simp
next
  case (Cons e es)
  from Cons.prems count_site_step [of s e] have "i < count (site_step e s)" by simp
  from Cons.IH [OF this] calls_of_site_step [OF Cons.prems, of e] show ?case by simp
qed

lemma site_inv_init: "site_inv site_init"
  by (simp add: site_inv_def site_init_def)

lemma map_gen_id_update:
  "k < length fs \<Longrightarrow> gen_id g = gen_id (fs ! k) \<Longrightarrow> map gen_id (fs[k := g]) = map gen_id fs"
  by (simp add: map_update list_update_same_conv)

lemma site_inv_step: "site_inv s \<Longrightarrow> site_inv (site_step e s)"
proof (cases e)
  case (HookRender d deps)
  assume "site_inv s"
  then show ?thesis using HookRender
    by (fastforce simp: site_inv_def useDebounced_def debounce_def Let_def)
next
  case (Call k args)
  assume inv: "site_inv s"
  show ?thesis
  proof (cases "k < length (fns s)")
    case True
    have m: "map gen_id ((fns s)[k := debounced_call (now s) args (fns s ! k)]) = map gen_id (fns s)"
      using True by (simp add: map_gen_id_update)
    have "\<forall>f \<in> set ((fns s)[k := debounced_call (now s) args (fns s ! k)]). gen_id f \<le> count s"
    proof
      fix f assume "f \<in> set ((fns s)[k := debounced_call (now s) args (fns s ! k)])"
      then have "gen_id f \<in> set (map gen_id ((fns s)[k := debounced_call (now s) args (fns s ! k)]))"
        by simp
      then have "gen_id f \<in> gen_id ` set (fns s)" unfolding m by simp
      with inv show "gen_id f \<le> count s" by (auto simp: site_inv_def)
    qed
    with inv m True Call show ?thesis by (simp add: site_inv_def)
  next
    case False
    with inv Call show ?thesis by simp
  qed
next
  case (Tick n)
  assume "site_inv s"
  then show ?thesis using Tick
    by (simp add: site_inv_def Let_def comp_def)
qed

lemma site_inv_run: "site_inv s \<Longrightarrow> site_inv (site_run es s)"
  by (induction es arbitrary: s) (simp_all add: site_inv_step)

text \<open>
  C1. Take any state the call site can reach and any debounced function created there,
  and let the hook create a newer one (the delay or a dependency changed). Whatever
  happens afterwards, whether further calls of the old function with any arguments, the
  passage of any amount of time (so that its pending timer fires), or any number of
  further re-creations, the \<open>fn\<close> wrapped by the old function is not invoked again: the
  invocations recorded for its generation id are those made before it was superseded.
\<close>

theorem superseded_call_has_no_effect:
  assumes "s = site_run es0 site_init"
    and "k < length (fns s)"
    and "memo s \<noteq> Some (changeDelay, deps)"
  shows "calls_of (gen_id (fns s ! k)) (invoked (site_run es (useDebounced changeDelay deps s)))
         = calls_of (gen_id (fns s ! k)) (invoked s)"
proof -
  have "site_inv s" using assms(1) by (simp add: site_inv_run site_inv_init)
  with assms(2) have "gen_id (fns s ! k) \<le> count s" by (simp add: site_inv_def)
  with assms(3) have "gen_id (fns s ! k) < count (useDebounced changeDelay deps s)"
    by (simp add: useDebounced_def Let_def)
  from calls_of_site_run [OF this, of es] assms(3) show ?thesis
    by (simp add: useDebounced_def Let_def)
qed


theorem superseded_call_has_no_effect_witness:
  "0 < length (fns (site_run [HookRender 500 (1::nat), Call 0 ''a''] site_init)) \<and>
   memo (site_run [HookRender 500 (1::nat), Call 0 ''a''] site_init) \<noteq> Some (500, 2) \<and>
   timer (fns (site_run [HookRender 500 (1::nat), Call 0 ''a''] site_init) ! 0) = Some (500, ''a'') \<and>
   calls_of 1 (invoked (site_run [Tick 500]
      (useDebounced 500 2 (site_run [HookRender 500 (1::nat), Call 0 ''a''] site_init)))) = []"
  using superseded_call_has_no_effect
    [of "site_run [HookRender 500 (1::nat), Call 0 ''a''] site_init"
        "[HookRender 500 (1::nat), Call 0 ''a'']" 0 500 2 "[Tick 500]"]
  by (simp add: site_init_def useDebounced_def debounce_def debounced_call_def calls_of_def)

lemma fire_others: "\<forall>f \<in> set fs. gen_id f \<noteq> cnt \<Longrightarrow> fire t cnt fs lg = lg"
  by (induction fs arbitrary: lg) (simp_all add: wrapped_def split: option.splits)

lemma fire_unique:
  "k < length fs \<Longrightarrow> gen_id (fs ! k) = cnt \<Longrightarrow> distinct (map gen_id fs) \<Longrightarrow>
   fire t cnt fs lg = (case due t (fs ! k) of None \<Rightarrow> lg | Some args \<Rightarrow> lg @ [(cnt, args)])"
proof (induction fs arbitrary: k lg)
  case Nil
  then show ?case by simp
next
  case (Cons f fs)
  show ?case
  proof (cases k)
    case 0
    with Cons.prems have "\<forall>g \<in> set fs. gen_id g \<noteq> cnt" by (auto simp: image_iff)
    from fire_others [OF this] 0 Cons.prems show ?thesis
      by (simp add: wrapped_def split: option.splits)
  next
    case (Suc j)
    with Cons.prems have j: "j < length fs" "gen_id (fs ! j) = cnt" "distinct (map gen_id fs)"
      by simp_all
    from Suc Cons.prems have "gen_id f \<noteq> cnt" using j(1) by (auto simp: image_iff)
    with Cons.IH [OF j] Suc show ?thesis
      by (simp add: wrapped_def split: option.splits)
  qed
qed

lemma due_after_call:
  "due (t + n) (debounced_call t args f) = (if wait f \<le> n then Some args else None)"
  by (simp add: due_def debounced_call_def)

lemma call_pause:
  assumes "current k w s"
  shows "current k w (site_run [Call k args, Tick n] s)"
    and "count (site_run [Call k args, Tick n] s) = count s"
    and "invoked (site_run [Call k args, Tick n] s)
         = (if w \<le> n then invoked s @ [(count s, args)] else invoked s)"
proof -
  let ?s1 = "site_step (Call k args) s"
  from assms have k: "k < length (fns s)" and i: "gen_id (fns s ! k) = count s"
    and w: "wait (fns s ! k) = w" and inv: "site_inv s"
    by (simp_all add: current_def)
  have inv1: "site_inv ?s1" using inv by (rule site_inv_step)
  have inv2: "site_inv (site_step (Tick n) ?s1)" using inv1 by (rule site_inv_step)
  from k i w inv2 show "current k w (site_run [Call k args, Tick n] s)"
    by (simp add: current_def Let_def)
  from k show "count (site_run [Call k args, Tick n] s) = count s"
    by (simp add: Let_def)
  from inv1 have d: "distinct (map gen_id (fns ?s1))" by (simp add: site_inv_def)
  from k i have k1: "k < length (fns ?s1)" "gen_id (fns ?s1 ! k) = count s" by simp_all
  from fire_unique [OF k1 d, of "now s + n" "invoked s"] k w
  show "invoked (site_run [Call k args, Tick n] s)
         = (if w \<le> n then invoked s @ [(count s, args)] else invoked s)"
    by (simp add: Let_def due_after_call)
qed

lemma burst_quiet:
  assumes "current k w s" and "\<forall>c \<in> set cs. snd c < w"
  shows "current k w (site_run (burst k cs) s) \<and>
         count (site_run (burst k cs) s) = count s \<and>
         invoked (site_run (burst k cs) s) = invoked s"
  using assms
proof (induction cs arbitrary: s)
  case Nil
  then show ?case by simp
next
  case (Cons c cs)
  obtain args gap where c: "c = (args, gap)" by (cases c)
  let ?s' = "site_run [Call k args, Tick gap] s"
  from Cons.prems c have gap: "\<not> w \<le> gap" by simp
  from call_pause [OF Cons.prems(1), of args gap] gap
  have s': "current k w ?s'" "count ?s' = count s" "invoked ?s' = invoked s" by simp_all
  from Cons.prems have "\<forall>c \<in> set cs. snd c < w" by simp
  from Cons.IH [OF s'(1) this] s'(2,3) c show ?case by simp
qed

lemma site_run_append: "site_run (es @ es') s = site_run es' (site_run es s)"
  by (induction es arbitrary: s) simp_all

lemma burst_append: "burst k (cs @ cs') = burst k cs @ burst k cs'"
  by (induction cs) auto

text \<open>
  C7 (as amended). Take any state the call site can reach and the function that is the
  current version there. After two or more calls of it, each but the last followed by
  a pause shorter than the delay, and a final pause of at least the delay, with no
  newer version created in between, the wrapped \<open>fn\<close> has been invoked exactly once
  more, with the arguments of the last call.
\<close>

theorem burst_invokes_once_with_last_args:
  assumes "s = site_run es0 site_init"
    and "k < length (fns s)"
    and "gen_id (fns s ! k) = count s"
    and "cs \<noteq> []"
    and "\<forall>c \<in> set cs. snd c < wait (fns s ! k)"
    and "wait (fns s ! k) \<le> t"
  shows "invoked (site_run (burst k (cs @ [(z, t)])) s) = invoked s @ [(gen_id (fns s ! k), z)]"
proof -
  have "site_inv s" using assms(1) by (simp add: site_inv_run site_inv_init)
  with assms(2,3) have cur: "current k (wait (fns s ! k)) s" by (simp add: current_def)
  let ?s' = "site_run (burst k cs) s"
  from burst_quiet [OF cur assms(5)]
  have q: "current k (wait (fns s ! k)) ?s'" "count ?s' = count s" "invoked ?s' = invoked s"
    by simp_all
  from call_pause(3) [OF q(1), of z t] q(2,3) assms(3,6) show ?thesis
    by (simp add: burst_append site_run_append)
qed

text \<open>
  The claim as first stated has no proviso about newer versions: two calls 100 ms apart
  of a function with a delay of 500 ms, then a change of dependencies, then 500 ms of
  quiet, and \<open>fn\<close> has not been invoked at all.
\<close>

theorem burst_superseded_counterexample:
  "invoked (site_run [HookRender 500 (1::nat), Call 0 ''a'', Tick 100, Call 0 ''ab'',
                      HookRender 500 2, Tick 500] site_init) = []"
  by (simp add: site_init_def useDebounced_def debounce_def debounced_call_def due_def
      clear_due_def wrapped_def)

theorem burst_invokes_once_with_last_args_witness:
  "0 < length (fns (site_run [HookRender 500 (1::nat)] site_init)) \<and>
   gen_id (fns (site_run [HookRender 500 (1::nat)] site_init) ! 0)
     = count (site_run [HookRender 500 (1::nat)] site_init) \<and>
   snd (''a'', 100::nat) < wait (fns (site_run [HookRender 500 (1::nat)] site_init) ! 0) \<and>
   wait (fns (site_run [HookRender 500 (1::nat)] site_init) ! 0) \<le> 500 \<and>
   invoked (site_run (burst 0 ([(''a'', 100)] @ [(''ab'', 500)]))
              (site_run [HookRender 500 (1::nat)] site_init)) = [(1, ''ab'')]"
  using burst_invokes_once_with_last_args
    [of "site_run [HookRender 500 (1::nat)] site_init" "[HookRender 500 (1::nat)]" 0
        "[(''a'', 100)]" 500 "''ab''"]
  by (simp add: site_init_def useDebounced_def debounce_def)

section \<open>Properties of the owner's change handler\<close>

text \<open>
  C10. When the value delivered to the owner's handler equals the selected record's
  cell value as a string, the handler issues no update request; otherwise it issues
  exactly one, for the selected record and field with the delivered value.
\<close>

theorem EditorGuard_onChange_requests:
  "EditorGuard_onChange getCell r f v reqs =
     (if v = getCell r f then reqs else reqs @ [(r, f, v)])
   \<and> (EditorGuard_onChange getCell r f v reqs = reqs \<longleftrightarrow> v = getCell r f)"
  by (simp add: EditorGuard_onChange_def)

theorem EditorGuard_onChange_requests_witness:
  "EditorGuard_onChange (\<lambda>r f. ''{}'') (1::nat) (2::nat) ''{}'' [] = [] \<and>
   EditorGuard_onChange (\<lambda>r f. ''{}'') (1::nat) (2::nat) ''[1]'' [] = [(1, 2, ''[1]'')]"
  using EditorGuard_onChange_requests [of "\<lambda>r f. ''{}''" "1::nat" "2::nat" "''{}''" "[]"]
        EditorGuard_onChange_requests [of "\<lambda>r f. ''{}''" "1::nat" "2::nat" "''[1]''" "[]"]
  by simp

section \<open>Properties of the editor component\<close>

subsection \<open>What each effect leaves alone\<close>

lemmas effect_defs =
  run_if_def effect_value_def cleanup_changeSub_def cleanup_decorationsSub_def effect_load_def
  effect_create_def effect_changeSub_def effect_decorationsSub_def effect_syntax_def
  effect_layout_def effect_language_def effect_readOnly_def loadMonacoAsync_def setValue_def
  emit_change_def changeHandler_def upd_widget_def onLoad_calls_def syntax_calls_def Let_def

lemma content_update:
  "(\<And>w. content (f w) = content w) \<Longrightarrow> content (ws[h' := f (ws ! h')] ! h) = content (ws ! h)"
  by (cases "h' < length ws"; cases "h = h'"; simp add: list_update_beyond)

lemma cursor_update:
  "(\<And>w. cursor (f w) = cursor w) \<Longrightarrow> cursor (ws[h' := f (ws ! h')] ! h) = cursor (ws ! h)"
  by (cases "h' < length ws"; cases "h = h'"; simp add: list_update_beyond)

lemma frame_monaco [simp]:
  "monaco (snd (run_if b (effect_value p) s)) = monaco (snd s)"
  "monaco (snd (run_if b cleanup_changeSub s)) = monaco (snd s)"
  "monaco (snd (run_if b cleanup_decorationsSub s)) = monaco (snd s)"
  "monaco (snd (run_if b (effect_load p) s)) = monaco (snd s)"
  "monaco (snd (run_if b effect_create s)) = monaco (snd s)"
  "monaco (snd (run_if b (effect_changeSub p) s)) = monaco (snd s)"
  "monaco (snd (run_if b effect_decorationsSub s)) = monaco (snd s)"
  "monaco (snd (run_if b (effect_syntax p) s)) = monaco (snd s)"
  "monaco (snd (run_if b effect_layout s)) = monaco (snd s)"
  "monaco (snd (run_if b (effect_language p) s)) = monaco (snd s)"
  "monaco (snd (run_if b (effect_readOnly p) s)) = monaco (snd s)"
  by (simp_all add: effect_defs split: prod.splits option.splits)

lemma frame_editor [simp]:
  "editor (snd (run_if b (effect_value p) s)) = editor (snd s)"
  "editor (snd (run_if b cleanup_changeSub s)) = editor (snd s)"
  "editor (snd (run_if b cleanup_decorationsSub s)) = editor (snd s)"
  "editor (snd (run_if b (effect_load p) s)) = editor (snd s)"
  "editor (snd (run_if b effect_create s)) = editor (snd s)"
  "editor (snd (run_if b (effect_changeSub p) s)) = editor (snd s)"
  "editor (snd (run_if b effect_decorationsSub s)) = editor (snd s)"
  "editor (snd (run_if b (effect_syntax p) s)) = editor (snd s)"
  "editor (snd (run_if b effect_layout s)) = editor (snd s)"
  "editor (snd (run_if b (effect_language p) s)) = editor (snd s)"
  "editor (snd (run_if b (effect_readOnly p) s)) = editor (snd s)"
  by (simp_all add: effect_defs split: prod.splits option.splits)

lemma frame_errors [simp]:
  "errors (snd (run_if b (effect_value p) s)) = errors (snd s)"
  "errors (snd (run_if b cleanup_changeSub s)) = errors (snd s)"
  "errors (snd (run_if b cleanup_decorationsSub s)) = errors (snd s)"
  "errors (snd (run_if b (effect_load p) s)) = errors (snd s)"
  "errors (snd (run_if b effect_create s)) = errors (snd s)"
  "errors (snd (run_if b (effect_changeSub p) s)) = errors (snd s)"
  "errors (snd (run_if b effect_decorationsSub s)) = errors (snd s)"
  "errors (snd (run_if b (effect_syntax p) s)) = errors (snd s)"
  "errors (snd (run_if b effect_layout s)) = errors (snd s)"
  "errors (snd (run_if b (effect_language p) s)) = errors (snd s)"
  "errors (snd (run_if b (effect_readOnly p) s)) = errors (snd s)"
  by (simp_all add: effect_defs split: prod.splits option.splits)

lemma frame_prev [simp]:
  "prev (snd (run_if b (effect_value p) s)) = prev (snd s)"
  "prev (snd (run_if b cleanup_changeSub s)) = prev (snd s)"
  "prev (snd (run_if b cleanup_decorationsSub s)) = prev (snd s)"
  "prev (snd (run_if b (effect_load p) s)) = prev (snd s)"
  "prev (snd (run_if b effect_create s)) = prev (snd s)"
  "prev (snd (run_if b (effect_changeSub p) s)) = prev (snd s)"
  "prev (snd (run_if b effect_decorationsSub s)) = prev (snd s)"
  "prev (snd (run_if b (effect_syntax p) s)) = prev (snd s)"
  "prev (snd (run_if b effect_layout s)) = prev (snd s)"
  "prev (snd (run_if b (effect_language p) s)) = prev (snd s)"
  "prev (snd (run_if b (effect_readOnly p) s)) = prev (snd s)"
  by (simp_all add: effect_defs split: prod.splits option.splits)

lemma frame_rootRef [simp]:
  "rootRef (snd (run_if b (effect_value p) s)) = rootRef (snd s)"
  "rootRef (snd (run_if b cleanup_changeSub s)) = rootRef (snd s)"
  "rootRef (snd (run_if b cleanup_decorationsSub s)) = rootRef (snd s)"
  "rootRef (snd (run_if b (effect_load p) s)) = rootRef (snd s)"
  "rootRef (snd (run_if b effect_create s)) = rootRef (snd s)"
  "rootRef (snd (run_if b (effect_changeSub p) s)) = rootRef (snd s)"
  "rootRef (snd (run_if b effect_decorationsSub s)) = rootRef (snd s)"
  "rootRef (snd (run_if b (effect_syntax p) s)) = rootRef (snd s)"
  "rootRef (snd (run_if b effect_layout s)) = rootRef (snd s)"
  "rootRef (snd (run_if b (effect_language p) s)) = rootRef (snd s)"
  "rootRef (snd (run_if b (effect_readOnly p) s)) = rootRef (snd s)"
  by (simp_all add: effect_defs split: prod.splits option.splits)

lemma frame_set_errors [simp]:
  "set_errors (snd (run_if b (effect_value p) s)) = set_errors (snd s)"
  "set_errors (snd (run_if b cleanup_changeSub s)) = set_errors (snd s)"
  "set_errors (snd (run_if b cleanup_decorationsSub s)) = set_errors (snd s)"
  "set_errors (snd (run_if b (effect_load p) s)) = set_errors (snd s)"
  "set_errors (snd (run_if b effect_create s)) = set_errors (snd s)"
  "set_errors (snd (run_if b (effect_changeSub p) s)) = set_errors (snd s)"
  "set_errors (snd (run_if b effect_decorationsSub s)) = set_errors (snd s)"
  "set_errors (snd (run_if b (effect_syntax p) s)) = set_errors (snd s)"
  "set_errors (snd (run_if b effect_layout s)) = set_errors (snd s)"
  "set_errors (snd (run_if b (effect_language p) s)) = set_errors (snd s)"
  "set_errors (snd (run_if b (effect_readOnly p) s)) = set_errors (snd s)"
  by (simp_all add: effect_defs split: prod.splits option.splits)

lemma frame_set_editor [simp]:
  "set_editor (snd (run_if b (effect_value p) s)) = set_editor (snd s)"
  "set_editor (snd (run_if b cleanup_changeSub s)) = set_editor (snd s)"
  "set_editor (snd (run_if b cleanup_decorationsSub s)) = set_editor (snd s)"
  "set_editor (snd (run_if b (effect_load p) s)) = set_editor (snd s)"
  "set_editor (snd (run_if b (effect_changeSub p) s)) = set_editor (snd s)"
  "set_editor (snd (run_if b effect_decorationsSub s)) = set_editor (snd s)"
  "set_editor (snd (run_if b (effect_syntax p) s)) = set_editor (snd s)"
  "set_editor (snd (run_if b effect_layout s)) = set_editor (snd s)"
  "set_editor (snd (run_if b (effect_language p) s)) = set_editor (snd s)"
  "set_editor (snd (run_if b (effect_readOnly p) s)) = set_editor (snd s)"
  by (simp_all add: effect_defs split: prod.splits option.splits)

lemma frame_loading [simp]:
  "loading (snd (run_if b (effect_value p) s)) = loading (snd s)"
  "loading (snd (run_if b cleanup_changeSub s)) = loading (snd s)"
  "loading (snd (run_if b cleanup_decorationsSub s)) = loading (snd s)"
  "loading (snd (run_if b effect_create s)) = loading (snd s)"
  "loading (snd (run_if b (effect_changeSub p) s)) = loading (snd s)"
  "loading (snd (run_if b effect_decorationsSub s)) = loading (snd s)"
  "loading (snd (run_if b (effect_syntax p) s)) = loading (snd s)"
  "loading (snd (run_if b effect_layout s)) = loading (snd s)"
  "loading (snd (run_if b (effect_language p) s)) = loading (snd s)"
  "loading (snd (run_if b (effect_readOnly p) s)) = loading (snd s)"
  by (simp_all add: effect_defs split: prod.splits option.splits)

lemma frame_changeSub [simp]:
  "changeSub (snd (run_if b (effect_value p) s)) = changeSub (snd s)"
  "changeSub (snd (run_if b cleanup_decorationsSub s)) = changeSub (snd s)"
  "changeSub (snd (run_if b (effect_load p) s)) = changeSub (snd s)"
  "changeSub (snd (run_if b effect_create s)) = changeSub (snd s)"
  "changeSub (snd (run_if b effect_decorationsSub s)) = changeSub (snd s)"
  "changeSub (snd (run_if b (effect_syntax p) s)) = changeSub (snd s)"
  "changeSub (snd (run_if b effect_layout s)) = changeSub (snd s)"
  "changeSub (snd (run_if b (effect_language p) s)) = changeSub (snd s)"
  "changeSub (snd (run_if b (effect_readOnly p) s)) = changeSub (snd s)"
  by (simp_all add: effect_defs split: prod.splits option.splits)

lemma frame_decorationsSub [simp]:
  "decorationsSub (snd (run_if b (effect_value p) s)) = decorationsSub (snd s)"
  "decorationsSub (snd (run_if b cleanup_changeSub s)) = decorationsSub (snd s)"
  "decorationsSub (snd (run_if b (effect_load p) s)) = decorationsSub (snd s)"
  "decorationsSub (snd (run_if b effect_create s)) = decorationsSub (snd s)"
  "decorationsSub (snd (run_if b (effect_changeSub p) s)) = decorationsSub (snd s)"
  "decorationsSub (snd (run_if b (effect_syntax p) s)) = decorationsSub (snd s)"
  "decorationsSub (snd (run_if b effect_layout s)) = decorationsSub (snd s)"
  "decorationsSub (snd (run_if b (effect_language p) s)) = decorationsSub (snd s)"
  "decorationsSub (snd (run_if b (effect_readOnly p) s)) = decorationsSub (snd s)"
  by (simp_all add: effect_defs split: prod.splits option.splits)

lemma frame_valueRef [simp]:
  "valueRef (snd (run_if b cleanup_changeSub s)) = valueRef (snd s)"
  "valueRef (snd (run_if b cleanup_decorationsSub s)) = valueRef (snd s)"
  "valueRef (snd (run_if b (effect_load p) s)) = valueRef (snd s)"
  "valueRef (snd (run_if b effect_create s)) = valueRef (snd s)"
  "valueRef (snd (run_if b (effect_changeSub p) s)) = valueRef (snd s)"
  "valueRef (snd (run_if b effect_decorationsSub s)) = valueRef (snd s)"
  "valueRef (snd (run_if b (effect_syntax p) s)) = valueRef (snd s)"
  "valueRef (snd (run_if b effect_layout s)) = valueRef (snd s)"
  "valueRef (snd (run_if b (effect_language p) s)) = valueRef (snd s)"
  "valueRef (snd (run_if b (effect_readOnly p) s)) = valueRef (snd s)"
  by (simp_all add: effect_defs split: prod.splits option.splits)

lemma frame_requests [simp]:
  "requests (fst (run_if b (effect_value p) s)) = requests (fst s)"
  "requests (fst (run_if b cleanup_changeSub s)) = requests (fst s)"
  "requests (fst (run_if b cleanup_decorationsSub s)) = requests (fst s)"
  "requests (fst (run_if b effect_create s)) = requests (fst s)"
  "requests (fst (run_if b (effect_changeSub p) s)) = requests (fst s)"
  "requests (fst (run_if b effect_decorationsSub s)) = requests (fst s)"
  "requests (fst (run_if b (effect_syntax p) s)) = requests (fst s)"
  "requests (fst (run_if b effect_layout s)) = requests (fst s)"
  "requests (fst (run_if b (effect_language p) s)) = requests (fst s)"
  "requests (fst (run_if b (effect_readOnly p) s)) = requests (fst s)"
  by (simp_all add: effect_defs split: prod.splits option.splits)

lemma frame_onLoad_calls [simp]:
  "onLoad_calls (calls (fst (run_if b (effect_value p) s))) = onLoad_calls (calls (fst s))"
  "onLoad_calls (calls (fst (run_if b cleanup_changeSub s))) = onLoad_calls (calls (fst s))"
  "onLoad_calls (calls (fst (run_if b cleanup_decorationsSub s))) = onLoad_calls (calls (fst s))"
  "onLoad_calls (calls (fst (run_if b effect_create s))) = onLoad_calls (calls (fst s))"
  "onLoad_calls (calls (fst (run_if b (effect_changeSub p) s))) = onLoad_calls (calls (fst s))"
  "onLoad_calls (calls (fst (run_if b effect_decorationsSub s))) = onLoad_calls (calls (fst s))"
  "onLoad_calls (calls (fst (run_if b (effect_syntax p) s))) = onLoad_calls (calls (fst s))"
  "onLoad_calls (calls (fst (run_if b effect_layout s))) = onLoad_calls (calls (fst s))"
  "onLoad_calls (calls (fst (run_if b (effect_language p) s))) = onLoad_calls (calls (fst s))"
  "onLoad_calls (calls (fst (run_if b (effect_readOnly p) s))) = onLoad_calls (calls (fst s))"
  by (simp_all add: effect_defs split: prod.splits option.splits)

lemma frame_syntax_calls [simp]:
  "syntax_calls (calls (fst (run_if b (effect_value p) s))) = syntax_calls (calls (fst s))"
  "syntax_calls (calls (fst (run_if b cleanup_changeSub s))) = syntax_calls (calls (fst s))"
  "syntax_calls (calls (fst (run_if b cleanup_decorationsSub s))) = syntax_calls (calls (fst s))"
  "syntax_calls (calls (fst (run_if b (effect_load p) s))) = syntax_calls (calls (fst s))"
  "syntax_calls (calls (fst (run_if b effect_create s))) = syntax_calls (calls (fst s))"
  "syntax_calls (calls (fst (run_if b (effect_changeSub p) s))) = syntax_calls (calls (fst s))"
  "syntax_calls (calls (fst (run_if b effect_decorationsSub s))) = syntax_calls (calls (fst s))"
  "syntax_calls (calls (fst (run_if b effect_layout s))) = syntax_calls (calls (fst s))"
  "syntax_calls (calls (fst (run_if b (effect_language p) s))) = syntax_calls (calls (fst s))"
  "syntax_calls (calls (fst (run_if b (effect_readOnly p) s))) = syntax_calls (calls (fst s))"
  by (simp_all add: effect_defs split: prod.splits option.splits)

lemma frame_length_widgets [simp]:
  "length (widgets (fst (run_if b (effect_value p) s))) = length (widgets (fst s))"
  "length (widgets (fst (run_if b cleanup_changeSub s))) = length (widgets (fst s))"
  "length (widgets (fst (run_if b cleanup_decorationsSub s))) = length (widgets (fst s))"
  "length (widgets (fst (run_if b (effect_load p) s))) = length (widgets (fst s))"
  "length (widgets (fst (run_if b (effect_changeSub p) s))) = length (widgets (fst s))"
  "length (widgets (fst (run_if b effect_decorationsSub s))) = length (widgets (fst s))"
  "length (widgets (fst (run_if b (effect_syntax p) s))) = length (widgets (fst s))"
  "length (widgets (fst (run_if b effect_layout s))) = length (widgets (fst s))"
  "length (widgets (fst (run_if b (effect_language p) s))) = length (widgets (fst s))"
  "length (widgets (fst (run_if b (effect_readOnly p) s))) = length (widgets (fst s))"
  by (simp_all add: effect_defs split: prod.splits option.splits)

lemma frame_content [simp]:
  "content (widgets (fst (run_if b cleanup_changeSub s)) ! h) = content (widgets (fst s) ! h)"
  "content (widgets (fst (run_if b cleanup_decorationsSub s)) ! h) = content (widgets (fst s) ! h)"
  "content (widgets (fst (run_if b (effect_load p) s)) ! h) = content (widgets (fst s) ! h)"
  "content (widgets (fst (run_if b (effect_changeSub p) s)) ! h) = content (widgets (fst s) ! h)"
  "content (widgets (fst (run_if b effect_decorationsSub s)) ! h) = content (widgets (fst s) ! h)"
  "content (widgets (fst (run_if b (effect_syntax p) s)) ! h) = content (widgets (fst s) ! h)"
  "content (widgets (fst (run_if b effect_layout s)) ! h) = content (widgets (fst s) ! h)"
  "content (widgets (fst (run_if b (effect_language p) s)) ! h) = content (widgets (fst s) ! h)"
  "content (widgets (fst (run_if b (effect_readOnly p) s)) ! h) = content (widgets (fst s) ! h)"
  by (simp_all add: effect_defs content_update split: prod.splits option.splits)

lemma frame_cursor [simp]:
  "cursor (widgets (fst (run_if b cleanup_changeSub s)) ! h) = cursor (widgets (fst s) ! h)"
  "cursor (widgets (fst (run_if b cleanup_decorationsSub s)) ! h) = cursor (widgets (fst s) ! h)"
  "cursor (widgets (fst (run_if b (effect_load p) s)) ! h) = cursor (widgets (fst s) ! h)"
  "cursor (widgets (fst (run_if b (effect_changeSub p) s)) ! h) = cursor (widgets (fst s) ! h)"
  "cursor (widgets (fst (run_if b effect_decorationsSub s)) ! h) = cursor (widgets (fst s) ! h)"
  "cursor (widgets (fst (run_if b (effect_syntax p) s)) ! h) = cursor (widgets (fst s) ! h)"
  "cursor (widgets (fst (run_if b effect_layout s)) ! h) = cursor (widgets (fst s) ! h)"
  "cursor (widgets (fst (run_if b (effect_language p) s)) ! h) = cursor (widgets (fst s) ! h)"
  "cursor (widgets (fst (run_if b (effect_readOnly p) s)) ! h) = cursor (widgets (fst s) ! h)"
  by (simp_all add: effect_defs cursor_update split: prod.splits option.splits)

subsection \<open>What the effects change\<close>

lemma run_if_False: "run_if False f s = s"
  by (simp add: run_if_def)

lemma load_requests [simp]:
  "requests (fst (run_if b (effect_load p) s)) =
     (if b \<and> \<not> monaco (snd s) then requests (fst s) @ [load_urls ! 0] else requests (fst s))"
  by (cases s) (simp add: run_if_def effect_load_def loadMonacoAsync_def split: prod.splits)

lemma load_loading [simp]:
  "loading (snd (run_if b (effect_load p) s)) =
     (if b \<and> \<not> monaco (snd s) then loading (snd s) @ [0] else loading (snd s))"
  by (cases s) (simp add: run_if_def effect_load_def loadMonacoAsync_def)

lemma load_onLoad_calls [simp]:
  "onLoad_calls (calls (fst (run_if b (effect_load p) s))) =
     onLoad_calls (calls (fst s)) @ (if b \<and> monaco (snd s) then [onLoad p] else [])"
  by (cases s) (simp add: run_if_def effect_load_def loadMonacoAsync_def onLoad_calls_def)

lemma create_set_editor [simp]:
  "set_editor (snd (run_if b effect_create s)) =
     (if b \<and> monaco (snd s) \<and> rootRef (snd s) then Some (length (widgets (fst s)))
      else set_editor (snd s))"
  by (cases s) (simp add: run_if_def effect_create_def Let_def)

lemma create_length_widgets [simp]:
  "length (widgets (fst (run_if b effect_create s))) =
     (if b \<and> monaco (snd s) \<and> rootRef (snd s) then Suc (length (widgets (fst s)))
      else length (widgets (fst s)))"
  by (cases s) (simp add: run_if_def effect_create_def Let_def)

lemma create_content_old [simp]:
  "h < length (widgets (fst s)) \<Longrightarrow>
   content (widgets (fst (run_if b effect_create s)) ! h) = content (widgets (fst s) ! h)"
  by (cases s) (simp add: run_if_def effect_create_def Let_def nth_append)

lemma create_content_new:
  "monaco (snd s) \<Longrightarrow> rootRef (snd s) \<Longrightarrow> h = length (widgets (fst s)) \<Longrightarrow>
   content (widgets (fst (run_if True effect_create s)) ! h) = valueRef (snd s)"
  by (cases s) (simp add: run_if_def effect_create_def create_def Let_def)

lemma cleanup_changeSub_eq [simp]:
  "changeSub (snd (run_if b cleanup_changeSub s)) = (if b then None else changeSub (snd s))"
  by (cases s) (simp add: run_if_def cleanup_changeSub_def)

lemma effect_changeSub_eq [simp]:
  "changeSub (snd (run_if b (effect_changeSub p) s)) =
     (if b \<and> monaco (snd s)
      then (case editor (snd s) of None \<Rightarrow> changeSub (snd s) | Some h \<Rightarrow> Some (h, onChange p))
      else changeSub (snd s))"
  by (cases s) (simp add: run_if_def effect_changeSub_def split: option.splits)

lemma value_valueRef_unsubscribed [simp]:
  "changeSub (snd s) = None \<Longrightarrow> valueRef (snd (run_if b (effect_value p) s)) = valueRef (snd s)"
  by (cases s) (simp add: run_if_def effect_value_def setValue_def emit_change_def split: option.splits)

lemma value_content:
  "editor (snd s) = Some h \<Longrightarrow> h < length (widgets (fst s)) \<Longrightarrow>
   content (widgets (fst (run_if True (effect_value p) s)) ! h) =
     (if valueRef (snd s) = value_prop p then content (widgets (fst s) ! h) else value_prop p)"
  by (cases s) (simp add: run_if_def effect_value_def setValue_def emit_change_def changeHandler_def
      upd_widget_def Let_def split: option.splits)

lemma value_noop:
  "valueRef (snd s) = value_prop p \<Longrightarrow> run_if b (effect_value p) s = s"
  by (cases s) (simp add: run_if_def effect_value_def split: option.splits)

lemma create_cursor_old [simp]:
  "h < length (widgets (fst s)) \<Longrightarrow>
   cursor (widgets (fst (run_if b effect_create s)) ! h) = cursor (widgets (fst s) ! h)"
  by (cases s) (simp add: run_if_def effect_create_def Let_def nth_append)

lemma cleanup_decorationsSub_eq [simp]:
  "decorationsSub (snd (run_if b cleanup_decorationsSub s)) =
     (if b then None else decorationsSub (snd s))"
  by (cases s) (simp add: run_if_def cleanup_decorationsSub_def)

lemma effect_decorationsSub_eq [simp]:
  "decorationsSub (snd (run_if b effect_decorationsSub s)) =
     (if b \<and> monaco (snd s)
      then (case editor (snd s) of None \<Rightarrow> decorationsSub (snd s)
            | Some h \<Rightarrow> Some (h, errors (snd s)))
      else decorationsSub (snd s))"
  by (cases s) (simp add: run_if_def effect_decorationsSub_def split: option.splits)

subsection \<open>The sample states\<close>

lemmas monaco_defs =
  mount_def render_def commit_def run_if_def initial_def effect_load_def effect_create_def
  effect_changeSub_def cleanup_changeSub_def effect_decorationsSub_def
  cleanup_decorationsSub_def effect_syntax_def effect_layout_def effect_value_def
  effect_language_def effect_readOnly_def loadMonacoAsync_def resolved_def setValue_def
  emit_change_def changeHandler_def decorationsHandler_def upd_widget_def create_def
  load_urls_def Let_def fresh_page_def loaded_page_def sample_props_def sample_marker_def

lemma ready_state_eq:
  "ready_state =
    (\<lparr>window_monaco = True, window_require = False, requests = [],
       widgets = [\<lparr>content = ''A'', cursor = (1, 1), modeId = ''json'', readOnlyOption = False,
                    layouts = 2\<rparr>],
       calls = [OnLoad 2, OnSyntaxError 3 []]\<rparr>,
     \<lparr>prev = sample_props, monaco = True, editor = Some 0, errors = [], rootRef = True,
       valueRef = ''A'', set_monaco = False, set_editor = None, set_errors = None,
       loading = [], changeSub = Some (0, 1), decorationsSub = Some (0, [])\<rparr>)"
  by (simp add: ready_state_def monaco_defs)

lemma reported_state_eq:
  "reported_state =
    (\<lparr>window_monaco = True, window_require = False, requests = [],
       widgets = [\<lparr>content = ''A'', cursor = (1, 1), modeId = ''json'', readOnlyOption = False,
                    layouts = 2\<rparr>],
       calls = [OnLoad 2, OnSyntaxError 3 [], OnSyntaxError 3 [sample_marker]]\<rparr>,
     \<lparr>prev = sample_props, monaco = True, editor = Some 0, errors = [sample_marker],
       rootRef = True, valueRef = ''A'', set_monaco = False, set_editor = None,
       set_errors = None, loading = [], changeSub = Some (0, 1),
       decorationsSub = Some (0, [sample_marker])\<rparr>)"
  by (simp add: reported_state_def ready_state_eq render_def commit_def run_if_def
      decorationsHandler_def markersMatch_def effect_syntax_def effect_decorationsSub_def
      cleanup_decorationsSub_def sample_props_def)

lemma loading_state_eq:
  "loading_state =
    (\<lparr>window_monaco = True, window_require = True, requests = load_urls, widgets = [],
       calls = [OnSyntaxError 3 []]\<rparr>,
     \<lparr>prev = changed_props, monaco = False, editor = None, errors = [], rootRef = True,
       valueRef = ''A'', set_monaco = True, set_editor = None, set_errors = None,
       loading = [], changeSub = None, decorationsSub = None\<rparr>)"
  by (simp add: loading_state_def changed_props_def monaco_defs)

subsection \<open>The sync pass\<close>

text \<open>
  C2. In a state of a mounted editor whose widget exists, when the incoming value prop
  equals \<open>valueRef.current\<close>, the layout effect that syncs the external value returns
  the state as it found it: \<open>setValue\<close> is not called, so nothing is written to the
  widget and no change event is emitted. The render as a whole leaves the content and
  the cursor of the widget as they were.
\<close>

theorem value_sync_leaves_widget_untouched:
  assumes "editor i = Some h" and "set_editor i = None" and "h < length (widgets g)"
    and "valueRef i = value_prop p"
  shows "effect_value p (g, i) = (g, i) \<and>
         content (widgets (fst (render p (g, i))) ! h) = content (widgets g ! h) \<and>
         cursor (widgets (fst (render p (g, i))) ! h) = cursor (widgets g ! h)"
proof -
  from assms(1,4) have "effect_value p (g, i) = (g, i)"
    by (simp add: effect_value_def)
  moreover from assms
  have "content (widgets (fst (render p (g, i))) ! h) = content (widgets g ! h) \<and>
        cursor (widgets (fst (render p (g, i))) ! h) = cursor (widgets g ! h)"
    by (simp add: render_def commit_def Let_def value_noop)
  ultimately show ?thesis by simp
qed

theorem value_sync_leaves_widget_untouched_witness:
  "editor (snd ready_state) = Some 0 \<and> set_editor (snd ready_state) = None \<and>
   0 < length (widgets (fst ready_state)) \<and>
   valueRef (snd ready_state) = value_prop sample_props \<and>
   effect_value sample_props ready_state = ready_state \<and>
   content (widgets (fst (render sample_props ready_state)) ! 0) = ''A'' \<and>
   cursor (widgets (fst (render sample_props ready_state)) ! 0) = (1, 1)"
  using value_sync_leaves_widget_untouched [of "snd ready_state" 0 "fst ready_state" sample_props]
  by (simp add: ready_state_eq sample_props_def)

subsection \<open>Decoration events\<close>

lemma listening_mount: "listening (mount p g)"
  by (simp add: listening_def mount_def commit_def Let_def initial_def split: option.splits)

lemma listening_render: "listening s \<Longrightarrow> listening (render p s)"
  by (cases s) (auto simp: listening_def render_def commit_def Let_def split: option.splits)

lemma listening_step: "listening s \<Longrightarrow> listening (step e s)"
proof (cases e)
  case (Render p)
  assume "listening s"
  with Render listening_render [of s p] show ?thesis by simp
next
  case (Resolved j)
  assume "listening s"
  with Resolved show ?thesis
    by (cases s) (auto simp: listening_def resolved_def Let_def split: option.splits)
next
  case (Edit v c)
  assume "listening s"
  with Edit show ?thesis
    by (cases s)
       (auto simp: listening_def emit_change_def changeHandler_def upd_widget_def Let_def
          split: option.splits)
next
  case (Decorations ms)
  assume "listening s"
  with Decorations show ?thesis
    by (cases s) (auto simp: listening_def decorationsHandler_def split: option.splits)
qed

lemma listening_run: "listening s \<Longrightarrow> listening (run es s)"
  by (induction es arbitrary: s) (simp_all add: listening_step)

lemma reported_render:
  assumes "reported errs cb base s" and "onSyntaxError p = cb"
  shows "reported errs cb base (render p s)"
proof -
  obtain g i where s: "s = (g, i)" by (cases s)
  from assms(1) have "listening (render p s)" by (simp add: reported_def listening_render)
  moreover from assms s have "set_errors (snd (render p s)) = None"
    "errors (snd (render p s)) = errs" "onSyntaxError (prev (snd (render p s))) = cb"
    "syntax_calls (calls (fst (render p s))) = base"
    by (simp_all add: reported_def render_def commit_def Let_def run_if_False)
  ultimately show ?thesis by (simp add: reported_def)
qed

lemma reported_step:
  assumes "reported errs cb base s" and "quiet errs cb e"
  shows "reported errs cb base (step e s)"
proof (cases e)
  case (Render p)
  with assms reported_render [of errs cb base s p] show ?thesis by simp
next
  case (Resolved j)
  with assms show ?thesis
    by (cases s) (auto simp: reported_def listening_def resolved_def Let_def split: option.splits)
next
  case (Edit v c)
  with assms show ?thesis
    by (cases s)
       (auto simp: reported_def listening_def emit_change_def changeHandler_def upd_widget_def
          Let_def syntax_calls_def split: option.splits)
next
  case (Decorations ms)
  with assms show ?thesis
    by (cases s) (auto simp: reported_def listening_def decorationsHandler_def split: option.splits)
qed

lemma reported_run:
  "reported errs cb base s \<Longrightarrow> \<forall>e \<in> set es. quiet errs cb e \<Longrightarrow> reported errs cb base (run es s)"
  by (induction es arbitrary: s) (simp_all add: reported_step)

lemma syntax_calls_effect_syntax [simp]:
  "syntax_calls (calls (fst (run_if b (effect_syntax p) s))) =
     syntax_calls (calls (fst s)) @ (if b then [(onSyntaxError p, errors (snd s))] else [])"
  by (cases s) (simp add: run_if_def effect_syntax_def syntax_calls_def)

lemma render_reports:
  "syntax_calls (calls (fst (render p (g, i)))) = syntax_calls (calls g) @ reports (Render p) (g, i)"
  by (auto simp: render_def commit_def Let_def split: option.splits)

lemma step_reports:
  "syntax_calls (calls (fst (step e s))) = syntax_calls (calls (fst s)) @ reports e s"
proof (cases e)
  case (Render p)
  with render_reports [of p "fst s" "snd s"] show ?thesis by simp
next
  case (Resolved j)
  then show ?thesis by (cases s) (simp add: resolved_def Let_def)
next
  case (Edit v c)
  then show ?thesis
    by (cases s)
       (simp add: emit_change_def changeHandler_def upd_widget_def Let_def syntax_calls_def
          split: option.splits)
next
  case (Decorations ms)
  then show ?thesis by (cases s) (simp add: decorationsHandler_def split: option.splits)
qed

lemma last_reported_mount: "last_reported (mount p g)"
  by (simp add: last_reported_def mount_def commit_def Let_def initial_def)

lemma errors_render:
  "errors (snd (render p (g, i))) = (case set_errors i of None \<Rightarrow> errors i | Some ms \<Rightarrow> ms)"
  by (simp add: render_def commit_def Let_def)

lemma set_errors_render: "set_errors (snd (render p (g, i))) = None"
  by (simp add: render_def commit_def Let_def)

lemma last_reported_render:
  assumes "last_reported s"
  shows "last_reported (render p s)"
proof -
  obtain g i where s: "s = (g, i)" by (cases s)
  from assms s show ?thesis
    by (auto simp: last_reported_def render_reports errors_render set_errors_render
        split: option.splits)
qed

lemma last_reported_step:
  assumes "listening s" and "last_reported s"
  shows "last_reported (step e s)"
proof (cases e)
  case (Render p)
  with last_reported_render [OF assms(2), of p] show ?thesis by simp
next
  case (Resolved j)
  with assms(2) show ?thesis
    by (cases s) (auto simp: last_reported_def resolved_def Let_def split: option.splits)
next
  case (Edit v c)
  with assms(2) show ?thesis
    by (cases s)
       (auto simp: last_reported_def emit_change_def changeHandler_def upd_widget_def Let_def
          syntax_calls_def split: option.splits)
next
  case (Decorations ms)
  with assms show ?thesis
    by (cases s)
       (auto simp: last_reported_def listening_def decorationsHandler_def split: option.splits)
qed

lemma last_reported_run:
  "listening s \<Longrightarrow> last_reported s \<Longrightarrow> last_reported (run es s)"
  by (induction es arbitrary: s) (simp_all add: last_reported_step listening_step)

text \<open>
  C3 (as amended). After its mount a component calls \<open>onSyntaxError\<close> only in a
  render, and only when the diagnostic list changed (a list was waiting in
  \<open>setErrors\<close>, which differs under \<open>markersMatch\<close> from the stored \<open>errors\<close>, the
  list reported last) or when the render is handed a different \<open>onSyntaxError\<close>
  function. So, starting in a state in which no \<open>setErrors\<close> is waiting, over any
  sequence of decoration-change events whose markers match the stored \<open>errors\<close>
  under \<open>markersMatch\<close>, whatever edits and load completions come in between,
  \<open>onSyntaxError\<close> is not called as long as the renders in between pass the same
  \<open>onSyntaxError\<close> function; the stored \<open>errors\<close> stay as they are and no
  \<open>setErrors\<close> is issued.
\<close>

theorem unchanged_markers_are_not_reported:
  assumes "s = run es0 (mount p0 g0)"
  shows "(set_errors (snd s) = None \<and>
          (\<forall>e \<in> set es. quiet (errors (snd s)) (onSyntaxError (prev (snd s))) e) \<longrightarrow>
            syntax_calls (calls (fst (run es s))) = syntax_calls (calls (fst s)) \<and>
            errors (snd (run es s)) = errors (snd s) \<and> set_errors (snd (run es s)) = None) \<and>
         syntax_calls (calls (fst (step e s))) = syntax_calls (calls (fst s)) @ reports e s \<and>
         syntax_calls (calls (fst s)) \<noteq> [] \<and>
         snd (last (syntax_calls (calls (fst s)))) = errors (snd s) \<and>
         (case set_errors (snd s) of
            None \<Rightarrow> True
          | Some newErrors \<Rightarrow> \<not> markersMatch (errors (snd s)) newErrors)"
proof -
  have l: "listening s" using assms by (simp add: listening_run listening_mount)
  have "syntax_calls (calls (fst (run es s))) = syntax_calls (calls (fst s)) \<and>
        errors (snd (run es s)) = errors (snd s) \<and> set_errors (snd (run es s)) = None"
    if n: "set_errors (snd s) = None"
      and q: "\<forall>e \<in> set es. quiet (errors (snd s)) (onSyntaxError (prev (snd s))) e"
  proof -
    from l n
    have "reported (errors (snd s)) (onSyntaxError (prev (snd s))) (syntax_calls (calls (fst s))) s"
      by (simp add: reported_def)
    from reported_run [OF this q] show ?thesis by (simp add: reported_def)
  qed
  moreover have "last_reported s"
    using assms by (simp add: last_reported_run listening_mount last_reported_mount)
  ultimately show ?thesis using step_reports [of e s] by (simp add: last_reported_def)
qed

theorem unchanged_markers_are_not_reported_witness:
  "set_errors (snd reported_state) = None \<and>
   markersMatch (errors (snd reported_state)) [sample_marker] \<and>
   onSyntaxError changed_props = onSyntaxError (prev (snd reported_state)) \<and>
   syntax_calls (calls (fst (run [Decorations [sample_marker], Edit ''B'' (1, 2),
        Decorations [sample_marker], Render changed_props, Decorations [sample_marker]]
      reported_state))) = [(3, []), (3, [sample_marker])] \<and>
   reports (Render changed_props) reported_state = [] \<and>
   snd (last (syntax_calls (calls (fst reported_state)))) = [sample_marker]"
proof -
  have r: "reported_state =
      run [Render sample_props, Decorations [sample_marker], Render sample_props]
        (mount sample_props loaded_page)"
    by (simp add: reported_state_def ready_state_def)
  show ?thesis
    using unchanged_markers_are_not_reported
      [OF r, of "[Decorations [sample_marker], Edit ''B'' (1, 2), Decorations [sample_marker],
                  Render changed_props, Decorations [sample_marker]]" "Render changed_props"]
    by (simp add: reported_state_eq markersMatch_def every_def changed_props_def
        sample_props_def syntax_calls_def)
qed

text \<open>
  The claim as first stated has no proviso on the function passed: \<open>onSyntaxError\<close>
  is a dependency of the reporting effect, so a render that passes another function
  between two decoration changes with matching markers reports the unchanged list to
  that function.
\<close>

theorem new_callback_reports_unchanged_markers_counterexample:
  "markersMatch (errors (snd reported_state)) [sample_marker] \<and>
   syntax_calls (calls (fst reported_state)) = [(3, []), (3, [sample_marker])] \<and>
   syntax_calls (calls (fst (run [Decorations [sample_marker],
        Render (sample_props\<lparr>onSyntaxError := 9\<rparr>), Decorations [sample_marker]]
      reported_state))) = [(3, []), (3, [sample_marker]), (9, [sample_marker])]"
  by (simp add: reported_state_eq markersMatch_def every_def monaco_defs syntax_calls_def)

subsection \<open>Loading the library\<close>

lemma render_loaded:
  assumes "monaco (snd s)" and "loading (snd s) = []"
  shows "monaco (snd (render p s)) \<and> loading (snd (render p s)) = [] \<and>
         requests (fst (render p s)) = requests (fst s)"
  using assms by (cases s) (simp add: render_def commit_def Let_def)

lemma step_loaded:
  assumes "monaco (snd s)" and "loading (snd s) = []"
  shows "monaco (snd (step e s)) \<and> loading (snd (step e s)) = [] \<and>
         requests (fst (step e s)) = requests (fst s)"
proof (cases e)
  case (Render p)
  with render_loaded [OF assms] show ?thesis by simp
next
  case (Resolved j)
  with assms show ?thesis by (cases s) (simp add: resolved_def)
next
  case (Edit v c)
  with assms show ?thesis
    by (cases s) (simp add: emit_change_def changeHandler_def upd_widget_def Let_def
        split: option.splits)
next
  case (Decorations ms)
  with assms show ?thesis
    by (cases s) (simp add: decorationsHandler_def split: option.splits)
qed

lemma run_loaded:
  "monaco (snd s) \<Longrightarrow> loading (snd s) = [] \<Longrightarrow>
   monaco (snd (run es s)) \<and> requests (fst (run es s)) = requests (fst s)"
proof (induction es arbitrary: s)
  case Nil
  then show ?case by simp
next
  case (Cons e es)
  from step_loaded [OF Cons.prems, of e] Cons.IH [of "step e s"] show ?case by simp
qed

lemma mount_loaded:
  "window_monaco g \<Longrightarrow>
   monaco (snd (mount p g)) \<and> loading (snd (mount p g)) = [] \<and>
   requests (fst (mount p g)) = requests g"
  by (simp add: mount_def commit_def Let_def initial_def)

text \<open>
  C4 (as amended). An instance that mounts when \<open>window.monaco\<close> is present takes the
  library from there: over its whole life, whatever renders, edits and other events
  follow, it requests no resource, that is, it never starts \<open>loadMonacoAsync\<close>. An
  instance that mounts when \<open>window.monaco\<close> is absent starts \<open>loadMonacoAsync\<close> in
  its mount, whatever loads other instances have in flight.
\<close>

theorem load_started_unless_library_present:
  "(window_monaco g \<longrightarrow>
      requests (fst (run es (mount p g))) = requests g \<and> monaco (snd (run es (mount p g)))) \<and>
   (\<not> window_monaco g \<longrightarrow> requests (fst (mount p g)) = requests g @ [load_urls ! 0])"
proof -
  have "requests (fst (run es (mount p g))) = requests g \<and> monaco (snd (run es (mount p g)))"
    if "window_monaco g"
    using mount_loaded [OF that, of p] run_loaded [of "mount p g" es] by simp
  moreover have "requests (fst (mount p g)) = requests g @ [load_urls ! 0]"
    if "\<not> window_monaco g"
    using that by (simp add: mount_def commit_def Let_def initial_def)
  ultimately show ?thesis by blast
qed

theorem load_started_unless_library_present_witness:
  "window_monaco loaded_page \<and>
   requests (fst (run [Render sample_props, Edit ''B'' (1, 2), Render changed_props]
                    (mount sample_props loaded_page))) = [] \<and>
   \<not> window_monaco fresh_page \<and>
   requests (fst (mount sample_props fresh_page)) = [load_urls ! 0]"
  using load_started_unless_library_present
    [of loaded_page "[Render sample_props, Edit ''B'' (1, 2), Render changed_props]" sample_props]
    load_started_unless_library_present [of fresh_page "[]" sample_props]
  by (simp add: loaded_page_def fresh_page_def)

text \<open>
  The claim as first stated also covers instances that mount while a load is in
  flight. There the component has nothing to share: a second instance mounting on a
  fresh page while the first instance's load awaits the style sheet starts a load of
  its own, and the style sheet is requested twice.
\<close>

theorem concurrent_mounts_load_twice_counterexample:
  "\<not> window_monaco (fst (mount sample_props fresh_page)) \<and>
   loading (snd (mount sample_props fresh_page)) = [0] \<and>
   requests (fst (mount sample_props (fst (mount sample_props fresh_page))))
     = [load_urls ! 0, load_urls ! 0]"
  by (simp add: monaco_defs)

subsection \<open>The value the widget is created with\<close>

lemma unedited_mount: "unedited (value_prop p) (mount p g)"
  by (simp add: unedited_def mount_def commit_def Let_def initial_def)

lemma unedited_render:
  assumes "unedited v0 s"
  shows "unedited v0 (render p s)"
  using assms
  by (cases s) (auto simp: unedited_def render_def commit_def Let_def split: option.splits)

lemma unedited_step:
  assumes "unedited v0 s"
  shows "unedited v0 (step e s)"
proof (cases e)
  case (Render p)
  with unedited_render [OF assms] show ?thesis by simp
next
  case (Resolved j)
  with assms show ?thesis by (cases s) (simp add: unedited_def resolved_def Let_def)
next
  case (Edit v c)
  with assms show ?thesis
    by (cases s)
       (auto simp: unedited_def emit_change_def changeHandler_def upd_widget_def Let_def
          split: option.splits)
next
  case (Decorations ms)
  with assms show ?thesis
    by (cases s) (simp add: unedited_def decorationsHandler_def split: option.splits)
qed

lemma unedited_run: "unedited v0 s \<Longrightarrow> unedited v0 (run es s)"
  by (induction es arbitrary: s) (simp_all add: unedited_step)

lemma render_creates:
  assumes "set_editor (snd (render p (g, i))) = Some h"
    and "editor i = None" and "set_editor i = None" and "changeSub i = None"
  shows "h = length (widgets g)"
    and "content (widgets (fst (render p (g, i))) ! h) = valueRef i"
    and "length (widgets (fst (render p (g, i)))) = Suc h"
    and "editor (snd (render p (g, i))) = None"
    and "changeSub (snd (render p (g, i))) = None"
    and "valueRef (snd (render p (g, i))) = valueRef i"
    and "monaco (snd (render p (g, i)))"
proof -
  from assms have c: "\<not> monaco i" "set_monaco i" "rootRef i" and h: "h = length (widgets g)"
    by (auto simp: render_def commit_def Let_def split: if_splits)
  show "h = length (widgets g)" by (fact h)
  from c assms(2-4) h show "length (widgets (fst (render p (g, i)))) = Suc h"
    and "editor (snd (render p (g, i))) = None"
    and "changeSub (snd (render p (g, i))) = None"
    and "valueRef (snd (render p (g, i))) = valueRef i"
    and "monaco (snd (render p (g, i)))"
    by (simp_all add: render_def commit_def Let_def)
  have "content (widgets (fst (render p (g, i))) ! length (widgets g)) = valueRef i"
    using c assms(2-4)
    by (simp add: render_def commit_def Let_def create_content_new)
  with h show "content (widgets (fst (render p (g, i))) ! h) = valueRef i" by simp
qed

lemma render_syncs_new_widget:
  assumes "editor i = None" and "set_editor i = Some h" and "h < length (widgets g)"
    and "changeSub i = None" and "monaco i"
  shows "content (widgets (fst (render p (g, i))) ! h) =
           (if valueRef i = value_prop p then content (widgets g ! h) else value_prop p)"
  using assms by (simp add: render_def commit_def Let_def value_content)

text \<open>
  C5 (as amended). When a render after the mount creates the widget (the library has
  arrived in the meantime), the widget is seeded with \<open>valueRef.current\<close>, which
  still is the value prop of the mounting render, whatever value props the renders in
  between passed. The sync pass of the next render then leaves the widget holding the
  value prop of that render.
\<close>

theorem widget_seeded_with_mount_value:
  assumes "s = run es (mount p0 g0)"
    and "editor (snd s) = None" and "set_editor (snd s) = None"
    and "set_editor (snd (render p s)) = Some h"
  shows "content (widgets (fst (render p s)) ! h) = value_prop p0 \<and>
         content (widgets (fst (render p' (render p s))) ! h) = value_prop p'"
proof -
  obtain g i where s: "s = (g, i)" by (cases s)
  have "unedited (value_prop p0) s"
    using assms(1) by (simp add: unedited_run unedited_mount)
  with assms(2) s have u: "changeSub i = None" "valueRef i = value_prop p0"
    by (simp_all add: unedited_def)
  from assms(2-4) s have c: "set_editor (snd (render p (g, i))) = Some h"
    "editor i = None" "set_editor i = None"
    by simp_all
  note r = render_creates [OF c u(1)]
  obtain g' i' where s': "render p (g, i) = (g', i')" by (cases "render p (g, i)")
  from r(2) u(2) have first: "content (widgets (fst (render p (g, i))) ! h) = value_prop p0"
    by simp
  from r s' c(1) have n: "editor i' = None" "set_editor i' = Some h" "h < length (widgets g')"
    "changeSub i' = None" "monaco i'" "valueRef i' = value_prop p0"
    "content (widgets g' ! h) = value_prop p0"
    using u(2) by simp_all
  from render_syncs_new_widget [OF n(1-5), of p'] n(6,7)
  have "content (widgets (fst (render p' (g', i'))) ! h) = value_prop p'"
    by (simp split: if_splits)
  with first s s' show ?thesis by simp
qed

theorem widget_seeded_with_mount_value_witness:
  "editor (snd loading_state) = None \<and> set_editor (snd loading_state) = None \<and>
   set_editor (snd (render changed_props loading_state)) = Some 0 \<and>
   content (widgets (fst (render changed_props loading_state)) ! 0) = ''A'' \<and>
   content (widgets (fst (render changed_props (render changed_props loading_state))) ! 0) = ''B''"
proof -
  have h: "set_editor (snd (render changed_props loading_state)) = Some 0"
    by (simp add: loading_state_eq changed_props_def monaco_defs)
  show ?thesis
    using h widget_seeded_with_mount_value
      [OF loading_state_def _ _ h, of changed_props]
    by (simp add: loading_state_eq sample_props_def changed_props_def)
qed

text \<open>
  The claim as first stated wants the widget seeded with the value of the latest
  render. With a value prop that changed from \<open>A\<close> to \<open>B\<close> during the load, the
  render that creates the widget has the value \<open>B\<close> and the widget starts with \<open>A\<close>.
\<close>

theorem widget_created_with_stale_value_counterexample:
  "set_editor (snd (render changed_props loading_state)) = Some 0 \<and>
   value_prop (prev (snd (render changed_props loading_state))) = ''B'' \<and>
   content (widgets (fst (render changed_props loading_state)) ! 0) = ''A''"
  by (simp add: loading_state_eq changed_props_def monaco_defs)

subsection \<open>onLoad\<close>

lemma signalled_mount: "signalled (onLoad p) (onLoad_calls (calls g)) (mount p g)"
  by (simp add: signalled_def mount_def commit_def Let_def initial_def)

lemma signalled_render:
  assumes "signalled cb base s" and "onLoad p = cb"
  shows "signalled cb base (render p s)"
  using assms by (cases s) (auto simp: signalled_def render_def commit_def Let_def)

lemma signalled_step:
  assumes "signalled cb base s" and "keeps_onLoad cb e"
  shows "signalled cb base (step e s)"
proof (cases e)
  case (Render p)
  with assms signalled_render [of cb base s p] show ?thesis by simp
next
  case (Resolved j)
  with assms show ?thesis by (cases s) (simp add: signalled_def resolved_def Let_def)
next
  case (Edit v c)
  with assms show ?thesis
    by (cases s)
       (simp add: signalled_def emit_change_def changeHandler_def upd_widget_def Let_def
          onLoad_calls_def split: option.splits)
next
  case (Decorations ms)
  with assms show ?thesis
    by (cases s) (simp add: signalled_def decorationsHandler_def split: option.splits)
qed

lemma signalled_run:
  "signalled cb base s \<Longrightarrow> \<forall>e \<in> set es. keeps_onLoad cb e \<Longrightarrow> signalled cb base (run es s)"
  by (induction es arbitrary: s) (simp_all add: signalled_step)

lemma holds_widget_mount: "holds_widget (mount p g)"
  by (simp add: holds_widget_def made_def mount_def commit_def Let_def initial_def)

lemma holds_widget_render:
  assumes "holds_widget s"
  shows "holds_widget (render p s)"
  using assms
  by (cases s) (auto simp: holds_widget_def made_def render_def commit_def Let_def split: option.splits)

lemma holds_widget_step:
  assumes "holds_widget s"
  shows "holds_widget (step e s)"
proof (cases e)
  case (Render p)
  with holds_widget_render [OF assms] show ?thesis by simp
next
  case (Resolved j)
  with assms show ?thesis
    by (cases s) (auto simp: holds_widget_def made_def resolved_def Let_def)
next
  case (Edit v c)
  with assms show ?thesis
    by (cases s)
       (auto simp: holds_widget_def made_def emit_change_def changeHandler_def upd_widget_def
          Let_def split: option.splits)
next
  case (Decorations ms)
  with assms show ?thesis
    by (cases s) (auto simp: holds_widget_def made_def decorationsHandler_def split: option.splits)
qed

lemma holds_widget_run: "holds_widget s \<Longrightarrow> holds_widget (run es s)"
  by (induction es arbitrary: s) (simp_all add: holds_widget_step)

text \<open>
  C6 (as amended). For a mounted editor whose \<open>onLoad\<close> prop is the same function in
  every render, \<open>onLoad\<close> is called exactly once, when the widget comes into being: it
  has not been called as long as the instance has no widget, and it has been called
  once from the render on that creates the widget, be that the mount (the library was
  present) or the first render after the load completed; no later render calls it
  again. The instance has a widget exactly when it holds the library. In general a
  render calls \<open>onLoad\<close> exactly when the instance holds the library and either has
  just received it or is handed a different \<open>onLoad\<close> function than in the previous
  render.
\<close>

theorem onLoad_once_while_callback_unchanged:
  "((\<forall>e \<in> set es. keeps_onLoad (onLoad p0) e) \<longrightarrow>
      onLoad_calls (calls (fst (run es (mount p0 g0)))) =
        onLoad_calls (calls g0) @ (if made (run es (mount p0 g0)) then [onLoad p0] else [])) \<and>
   (made (run es (mount p0 g0)) \<longleftrightarrow> monaco (snd (run es (mount p0 g0)))) \<and>
   onLoad_calls (calls (fst (render p (g, i)))) =
     onLoad_calls (calls g) @
       (if monaco i \<and> onLoad (prev i) \<noteq> onLoad p \<or> \<not> monaco i \<and> set_monaco i
        then [onLoad p] else [])"
proof -
  have m: "made (run es (mount p0 g0)) \<longleftrightarrow> monaco (snd (run es (mount p0 g0)))"
    using holds_widget_run [OF holds_widget_mount, of es p0 g0] by (simp add: holds_widget_def)
  have "onLoad_calls (calls (fst (run es (mount p0 g0)))) =
        onLoad_calls (calls g0) @ (if made (run es (mount p0 g0)) then [onLoad p0] else [])"
    if "\<forall>e \<in> set es. keeps_onLoad (onLoad p0) e"
    using signalled_run [OF signalled_mount that] m by (simp add: signalled_def)
  moreover have "onLoad_calls (calls (fst (render p (g, i)))) =
     onLoad_calls (calls g) @
       (if monaco i \<and> onLoad (prev i) \<noteq> onLoad p \<or> \<not> monaco i \<and> set_monaco i
        then [onLoad p] else [])"
    by (auto simp: render_def commit_def Let_def)
  ultimately show ?thesis using m by blast
qed

theorem onLoad_once_while_callback_unchanged_witness:
  "keeps_onLoad (onLoad sample_props) (Resolved 0) \<and>
   keeps_onLoad (onLoad sample_props) (Render changed_props) \<and>
   \<not> made (run [Resolved 0, Resolved 0, Resolved 0, Resolved 0] (mount sample_props fresh_page)) \<and>
   onLoad_calls (calls (fst (run [Resolved 0, Resolved 0, Resolved 0, Resolved 0]
                               (mount sample_props fresh_page)))) = [] \<and>
   made (run [Resolved 0, Resolved 0, Resolved 0, Resolved 0, Render changed_props]
           (mount sample_props fresh_page)) \<and>
   onLoad_calls (calls (fst (run [Resolved 0, Resolved 0, Resolved 0, Resolved 0,
                                   Render changed_props, Render changed_props]
                               (mount sample_props fresh_page)))) = [2] \<and>
   monaco (snd ready_state) \<and>
   onLoad (prev (snd ready_state)) = 2 \<and>
   onLoad_calls (calls (fst (render (sample_props\<lparr>onLoad := 7\<rparr>) ready_state))) = [2, 7]"
  using onLoad_once_while_callback_unchanged
    [of "[Resolved 0, Resolved 0, Resolved 0, Resolved 0, Render changed_props, Render changed_props]"
        sample_props fresh_page "sample_props\<lparr>onLoad := 7\<rparr>" "fst ready_state" "snd ready_state"]
    onLoad_once_while_callback_unchanged
    [of "[Resolved 0, Resolved 0, Resolved 0, Resolved 0]"
        sample_props fresh_page "sample_props\<lparr>onLoad := 7\<rparr>" "fst ready_state" "snd ready_state"]
  by (simp add: changed_props_def monaco_defs onLoad_calls_def ready_state_eq made_def)

text \<open>
  The claim as first stated has no proviso on the function passed: \<open>onLoad\<close> is a
  dependency of the effect, so a render that passes another function calls that one
  too.
\<close>

theorem onLoad_again_for_new_callback_counterexample:
  "onLoad_calls (calls (fst (run [Render (sample_props\<lparr>onLoad := 7\<rparr>)]
                               (mount sample_props loaded_page)))) = [2, 7]"
  by (simp add: monaco_defs onLoad_calls_def)

subsection \<open>Change events\<close>













end
